theory Spec2Isabelle
  imports Main
begin

section \<open>Errors\<close>

text \<open>
  A Go \<open>error\<close> value is modelled by the reason the API machinery classifies it by and
  the text its \<open>Error()\<close> method prints; a nil error is \<open>None\<close> of \<open>error option\<close>.
\<close>

datatype reason = NotFound | Conflict | ConnReset | DeadlineExceeded | Unknown

datatype error = Error reason string

fun reasonOf :: "error \<Rightarrow> reason" where
  "reasonOf (Error r m) = r"

fun message :: "error \<Rightarrow> string" where
  "message (Error r m) = m"

text \<open>\<open>apierrors.IsNotFound\<close> and \<open>errors.IsConflict\<close> of the API machinery.\<close>

definition IsNotFound :: "error \<Rightarrow> bool" where
  "IsNotFound e = (reasonOf e = NotFound)"

definition IsConflict :: "error \<Rightarrow> bool" where
  "IsConflict e = (reasonOf e = Conflict)"

text \<open>
  Modelled from the spec: the helper \<open>isConnResetErr\<close> is declared in another file of the
  package; the spec calls its class the "connection reset" style errors.
\<close>

definition isConnResetErr :: "error \<Rightarrow> bool" where
  "isConnResetErr e = (reasonOf e = ConnReset)"

text \<open>\<open>context.DeadlineExceeded\<close>, the value of \<open>ctx.Err()\<close> once a deadline has passed.\<close>

definition ctxDeadlineExceeded :: error where
  "ctxDeadlineExceeded = Error DeadlineExceeded ''context deadline exceeded''"

section \<open>The operator network object and its API\<close>

text \<open>\<open>v1.IPsecMode\<close> is a string type with three named constants.\<close>

type_synonym IPsecMode = string

definition IPsecModeDisabled :: IPsecMode where
  "IPsecModeDisabled = ''Disabled''"

definition IPsecModeExternal :: IPsecMode where
  "IPsecModeExternal = ''External''"

definition IPsecModeFull :: IPsecMode where
  "IPsecModeFull = ''Full''"

record IPsecConfig =
  Mode :: IPsecMode

text \<open>
  Of the \<open>Network\<close> object named \<open>cluster\<close> only
  \<open>Spec.DefaultNetwork.OVNKubernetesConfig.IPsecConfig\<close> (a pointer, \<open>None\<close> when nil) and the
  resource version that optimistic concurrency compares are kept.
\<close>

record Network =
  ipsecConfig :: "IPsecConfig option"
  ResourceVersion :: nat

text \<open>
  What happens to a call on the network object: nothing, another writer updating the object
  just before the call is served, or the call failing with an error.
\<close>

datatype fault = NoFault | Rival "IPsecConfig option" | Fail error

text \<open>Of a daemon set only the two status counters that the test compares are kept.\<close>

record DaemonSet =
  DesiredNumberScheduled :: int
  NumberReady :: int

record Pod =
  Name :: string
  Namespace :: string
  PodIP :: string

text \<open>The test's own configuration objects; a pod pointer is \<open>None\<close> when nil.\<close>

record testNodeConfig =
  pingPod :: "Pod option"
  tcpdumpPod :: "Pod option"
  hostInf :: string
  nodeName :: string
  nodeIP :: string

record testConfig =
  ipsecMode :: IPsecMode
  srcNodeConfig :: testNodeConfig
  dstNodeConfig :: testNodeConfig

text \<open>What a command run through \<open>oc\<close> gives back: its error and how long it took.\<close>

record exec_result =
  execErr :: "error option"
  execTime :: nat

datatype event =
    EvNetworksGet "error option"
  | EvNetworksUpdate "IPsecConfig option" "error option"
  | EvDaemonSetsGet "DaemonSet option" "error option"
  | EvMachineConfigPools "error + bool"
  | EvClusterOperators "error + bool"
  | EvTrial bool "error option"
  | EvImage "error option"
  | EvLaunchPod string "error option"
  | EvCreateExecPod string bool
  | EvDeletePod "error option"
  | EvOc "string list" "error option"
  | EvUndeployNmstateHandler "error option"
  | EvDeleteNSCertMachineConfig "error option"
  | EvWorkerPools string bool "error + bool"

text \<open>
  The behaviour of the cluster is given from outside, per instant of a logical clock that
  advances by one with each call. The mutable part is the \<open>world\<close>: the clock, the stored
  network object and the log of calls made.
\<close>

record env =
  netFault :: "nat \<Rightarrow> fault"
  dsGet :: "nat \<Rightarrow> DaemonSet option \<times> error option"
  mcpReady :: "nat \<Rightarrow> error + bool"
  coReady :: "nat \<Rightarrow> error + bool"
  oc :: "nat \<Rightarrow> string list \<Rightarrow> exec_result"
  errOnceSrcFirst :: "nat \<Rightarrow> bool"
  DeleteNamespaceOnFailure :: bool
  imageFromRelease :: "nat \<Rightarrow> error option"
  launchPod :: "nat \<Rightarrow> string \<Rightarrow> error + Pod"
  createExecPod :: "nat \<Rightarrow> string \<Rightarrow> Pod option"
  deletePod :: "nat \<Rightarrow> error option"
  undeployNmstate :: "nat \<Rightarrow> error option"
  deleteNSCert :: "nat \<Rightarrow> error option"
  workerPoolsReady :: "nat \<Rightarrow> string \<Rightarrow> bool \<Rightarrow> error + bool"

record world =
  clock :: nat
  network :: Network
  log :: "event list"
  config :: "testConfig option"

definition tick :: "event \<Rightarrow> world \<Rightarrow> world" where
  "tick ev w = w\<lparr>clock := Suc (clock w), log := log w @ [ev]\<rparr>"

definition rivalWrite :: "env \<Rightarrow> world \<Rightarrow> world" where
  "rivalWrite E w =
     (case netFault E (clock w) of
        Rival c \<Rightarrow> w\<lparr>network := \<lparr>ipsecConfig = c, ResourceVersion = Suc (ResourceVersion (network w))\<rparr>\<rparr>
      | _ \<Rightarrow> w)"

definition callError :: "env \<Rightarrow> world \<Rightarrow> error option" where
  "callError E w = (case netFault E (clock w) of Fail e \<Rightarrow> Some e | _ \<Rightarrow> None)"

text \<open>\<open>Networks().Get(ctx, "cluster", ...)\<close>: the stored object, or an error.\<close>

definition NetworksGet :: "env \<Rightarrow> world \<Rightarrow> (Network \<times> error option) \<times> world" where
  "NetworksGet E w =
     (let w1 = rivalWrite E w; err = callError E w
      in ((network w1, err), tick (EvNetworksGet err) w1))"

text \<open>
  \<open>Networks().Update(ctx, network, ...)\<close>: refused with a conflict when the object was
  written since it was read, stored with a new resource version otherwise.
\<close>

definition NetworksUpdate :: "env \<Rightarrow> Network \<Rightarrow> world \<Rightarrow> error option \<times> world" where
  "NetworksUpdate E obj w =
     (let w1 = rivalWrite E w in
      case callError E w of
        Some e \<Rightarrow> (Some e, tick (EvNetworksUpdate (ipsecConfig obj) (Some e)) w1)
      | None \<Rightarrow>
          if ResourceVersion obj \<noteq> ResourceVersion (network w1)
          then (let e = Error Conflict ''the object has been modified''
                in (Some e, tick (EvNetworksUpdate (ipsecConfig obj) (Some e)) w1))
          else (None, tick (EvNetworksUpdate (ipsecConfig obj) None)
                        (w1\<lparr>network := obj\<lparr>ResourceVersion := Suc (ResourceVersion obj)\<rparr>\<rparr>)))"

text \<open>
  \<open>retry.RetryOnConflict(backoff, fn)\<close> of client-go: \<open>fn\<close> is run up to \<open>backoff.Steps\<close>
  times; nil or an error that is not a conflict ends the loop with that result, and when the
  steps are used up the last conflict is returned. \<open>retry.DefaultRetry\<close> has five steps.
\<close>

fun RetryOnConflict ::
  "nat \<Rightarrow> (world \<Rightarrow> error option \<times> world) \<Rightarrow> error option \<Rightarrow> world \<Rightarrow> error option \<times> world" where
  "RetryOnConflict 0 fn lastErr w = (lastErr, w)"
| "RetryOnConflict (Suc n) fn lastErr w =
     (case fn w of
        (None, w') \<Rightarrow> (None, w')
      | (Some e, w') \<Rightarrow> if IsConflict e then RetryOnConflict n fn (Some e) w' else (Some e, w'))"

definition DefaultRetry_Steps :: nat where
  "DefaultRetry_Steps = 5"

section \<open>ModeStore: configureIPsecMode and getIPsecMode\<close>

text \<open>The function literal that \<open>configureIPsecMode\<close> hands to \<open>RetryOnConflict\<close>.\<close>

definition configureIPsecMode_fn :: "env \<Rightarrow> IPsecMode \<Rightarrow> world \<Rightarrow> error option \<times> world" where
  "configureIPsecMode_fn E mode w =
     (case NetworksGet E w of
        ((net, Some e), w1) \<Rightarrow> (Some e, w1)
      | ((net, None), w1) \<Rightarrow>
          (case ipsecConfig net of
             None \<Rightarrow> NetworksUpdate E (net\<lparr>ipsecConfig := Some \<lparr>Mode = mode\<rparr>\<rparr>) w1
           | Some c \<Rightarrow>
               if Mode c \<noteq> mode
               then NetworksUpdate E (net\<lparr>ipsecConfig := Some (c\<lparr>Mode := mode\<rparr>)\<rparr>) w1
               else (None, w1)))"

definition configureIPsecMode :: "env \<Rightarrow> IPsecMode \<Rightarrow> world \<Rightarrow> error option \<times> world" where
  "configureIPsecMode E mode w =
     RetryOnConflict DefaultRetry_Steps (configureIPsecMode_fn E mode) None w"

definition getIPsecMode :: "env \<Rightarrow> world \<Rightarrow> (IPsecMode \<times> error option) \<times> world" where
  "getIPsecMode E w =
     (case NetworksGet E w of
        ((net, Some e), w1) \<Rightarrow> ((IPsecModeDisabled, Some e), w1)
      | ((net, None), w1) \<Rightarrow>
          (let mode = (case ipsecConfig net of
                         None \<Rightarrow> IPsecModeDisabled
                       | Some c \<Rightarrow> if Mode c \<noteq> [] then Mode c else IPsecModeFull)
           in ((mode, None), w1)))"

text \<open>The number of \<open>Update\<close> calls in a log: the underlying writes.\<close>

fun isUpdate :: "event \<Rightarrow> bool" where
  "isUpdate (EvNetworksUpdate c e) = True"
| "isUpdate _ = False"

definition writes :: "world \<Rightarrow> nat" where
  "writes w = length (filter isUpdate (log w))"

text \<open>The number of \<open>Get\<close> calls in a log: one for each run of the read-compare-write sequence.\<close>

fun isGet :: "event \<Rightarrow> bool" where
  "isGet (EvNetworksGet e) = True"
| "isGet _ = False"

definition reads :: "world \<Rightarrow> nat" where
  "reads w = length (filter isGet (log w))"

section \<open>Readiness polling\<close>

text \<open>
  The rollout wait constants, in minutes.
\<close>

definition ipsecRolloutWaitDuration :: nat where
  "ipsecRolloutWaitDuration = 20"

definition ipsecRolloutWaitInterval :: nat where
  "ipsecRolloutWaitInterval = 1"

type_synonym condition = "world \<Rightarrow> (bool \<times> error option) \<times> world"

text \<open>
  \<open>wait.PollUntilContextTimeout(ctx, interval, timeout, true, condition)\<close> of the API
  machinery. The condition is run at once (\<open>immediate\<close> is true) and then at every
  interval; a run that gives an error or true ends the poll with that error (nil for true).
  When the deadline is reached first the poll returns \<open>ctx.Err()\<close>. A condition is taken to
  run in no time, so that the timer fires \<open>(timeout - 1) div interval\<close> times before the
  deadline.
\<close>

fun loopConditionUntilContext :: "nat \<Rightarrow> condition \<Rightarrow> world \<Rightarrow> error option \<times> world" where
  "loopConditionUntilContext 0 cond w = (Some ctxDeadlineExceeded, w)"
| "loopConditionUntilContext (Suc n) cond w =
     (case cond w of
        ((ok, err), w') \<Rightarrow>
          if err \<noteq> None \<or> ok then (err, w') else loopConditionUntilContext n cond w')"

definition PollUntilContextTimeout ::
  "nat \<Rightarrow> nat \<Rightarrow> condition \<Rightarrow> world \<Rightarrow> error option \<times> world" where
  "PollUntilContextTimeout interval timeout cond w =
     (case cond w of
        ((ok, err), w') \<Rightarrow>
          if err \<noteq> None \<or> ok then (err, w')
          else loopConditionUntilContext ((timeout - 1) div interval) cond w')"

section \<open>FleetConvergenceChecker: the probes\<close>

text \<open>
  \<open>DaemonSets("openshift-ovn-kubernetes").Get(ctx, "ovn-ipsec-host", ...)\<close>: the cluster
  answers with a Go pair of a daemon set pointer and an error.
\<close>

definition DaemonSetsGet :: "env \<Rightarrow> world \<Rightarrow> (DaemonSet option \<times> error option) \<times> world" where
  "DaemonSetsGet E w =
     (case dsGet E (clock w) of (ds, err) \<Rightarrow> ((ds, err), tick (EvDaemonSetsGet ds err) w))"

definition getIPsecDaemonSet :: "env \<Rightarrow> world \<Rightarrow> (DaemonSet option \<times> error option) \<times> world" where
  "getIPsecDaemonSet E w =
     (case DaemonSetsGet E w of
        ((ds, err), w1) \<Rightarrow>
          (case err of
             Some e \<Rightarrow> if IsNotFound e then ((None, None), w1) else ((ds, err), w1)
           | None \<Rightarrow> ((ds, err), w1)))"

definition isIPsecDaemonSetRunning :: "env \<Rightarrow> world \<Rightarrow> (bool \<times> error option) \<times> world" where
  "isIPsecDaemonSetRunning E w =
     (case getIPsecDaemonSet E w of
        ((ipsecDS, err), w1) \<Rightarrow>
          (case ipsecDS of
             None \<Rightarrow> ((False, err), w1)
           | Some d \<Rightarrow> ((DesiredNumberScheduled d = NumberReady d, None), w1)))"

text \<open>
  Modelled from the spec: \<open>areMachineConfigPoolsReadyWithIPsec\<close> and
  \<open>areClusterOperatorsReady\<close> are declared in another file of the package. The first is
  true iff every relevant node pool reports its security-extension rollout complete, the
  second iff all cluster operators report healthy; either may fail with an error, and then
  reports false.
\<close>

fun goPair :: "error + bool \<Rightarrow> bool \<times> error option" where
  "goPair (Inl e) = (False, Some e)"
| "goPair (Inr b) = (b, None)"

definition areMachineConfigPoolsReadyWithIPsec :: "env \<Rightarrow> world \<Rightarrow> (bool \<times> error option) \<times> world" where
  "areMachineConfigPoolsReadyWithIPsec E w =
     (goPair (mcpReady E (clock w)), tick (EvMachineConfigPools (mcpReady E (clock w))) w)"

definition areClusterOperatorsReady :: "env \<Rightarrow> world \<Rightarrow> (bool \<times> error option) \<times> world" where
  "areClusterOperatorsReady E w =
     (goPair (coReady E (clock w)), tick (EvClusterOperators (coReady E (clock w))) w)"

text \<open>The test \<open>err != nil && !isConnResetErr(err)\<close> of the three poll conditions.\<close>

definition nonTransient :: "error option \<Rightarrow> bool" where
  "nonTransient err = (case err of None \<Rightarrow> False | Some e \<Rightarrow> \<not> isConnResetErr e)"

text \<open>The condition of \<open>ensureIPsecEnabled\<close>'s own poll.\<close>

definition ensureIPsecEnabled_cond :: "env \<Rightarrow> condition" where
  "ensureIPsecEnabled_cond E w =
     (case isIPsecDaemonSetRunning E w of
        ((done, err), w1) \<Rightarrow>
          if nonTransient err then ((False, err), w1)
          else if done then
            (case areClusterOperatorsReady E w1 of
               ((done2, err2), w2) \<Rightarrow>
                 if nonTransient err2 then ((False, err2), w2) else ((done2, None), w2))
          else ((done, None), w1))"

text \<open>The condition of \<open>ensureIPsecMachineConfigRolloutComplete\<close>.\<close>

definition ensureIPsecMachineConfigRolloutComplete_cond :: "env \<Rightarrow> condition" where
  "ensureIPsecMachineConfigRolloutComplete_cond E w =
     (case areMachineConfigPoolsReadyWithIPsec E w of
        ((done, err), w1) \<Rightarrow>
          if nonTransient err then ((False, err), w1)
          else if done then
            (case areClusterOperatorsReady E w1 of
               ((done2, err2), w2) \<Rightarrow>
                 if nonTransient err2 then ((False, err2), w2) else ((done2, None), w2))
          else ((done, None), w1))"

text \<open>The condition of \<open>ensureIPsecDisabled\<close>; \<open>done\<close> starts as false.\<close>

definition ensureIPsecDisabled_cond :: "env \<Rightarrow> condition" where
  "ensureIPsecDisabled_cond E w =
     (case getIPsecDaemonSet E w of
        ((ds, err), w1) \<Rightarrow>
          if nonTransient err then ((False, err), w1)
          else if ds = None \<and> err = None then
            (case areClusterOperatorsReady E w1 of
               ((done, err2), w2) \<Rightarrow>
                 if nonTransient err2 then ((False, err2), w2) else ((done, None), w2))
          else ((False, None), w1))"

definition ensureIPsecMachineConfigRolloutComplete :: "env \<Rightarrow> world \<Rightarrow> error option \<times> world" where
  "ensureIPsecMachineConfigRolloutComplete E w =
     PollUntilContextTimeout ipsecRolloutWaitInterval ipsecRolloutWaitDuration
       (ensureIPsecMachineConfigRolloutComplete_cond E) w"

definition ensureIPsecEnabled :: "env \<Rightarrow> world \<Rightarrow> error option \<times> world" where
  "ensureIPsecEnabled E w =
     (case ensureIPsecMachineConfigRolloutComplete E w of
        (Some e, w1) \<Rightarrow> (Some e, w1)
      | (None, w1) \<Rightarrow>
          PollUntilContextTimeout ipsecRolloutWaitInterval ipsecRolloutWaitDuration
            (ensureIPsecEnabled_cond E) w1)"

definition ensureIPsecDisabled :: "env \<Rightarrow> world \<Rightarrow> error option \<times> world" where
  "ensureIPsecDisabled E w =
     PollUntilContextTimeout ipsecRolloutWaitInterval ipsecRolloutWaitDuration
       (ensureIPsecDisabled_cond E) w"

text \<open>The events of the machine-config structural probe.\<close>

fun isMcp :: "event \<Rightarrow> bool" where
  "isMcp (EvMachineConfigPools r) = True"
| "isMcp _ = False"

section \<open>Assertions\<close>

text \<open>
  A function of the test runs to its end, or it is cut short by a failed assertion
  (\<open>o.Expect\<close>) or a panic on the goroutine of the spec, which Ginkgo recovers and which
  unwinds it (\<open>Abort\<close>), or the panic happens on a goroutine that has no \<open>GinkgoRecover\<close>
  and kills the test process (\<open>Crash\<close>): then nothing runs any more.
\<close>

datatype 'a run = Done 'a | Abort | Crash

text \<open>\<open>o.Expect(err).NotTo(o.HaveOccurred())\<close> and \<open>o.Expect(err).To(o.HaveOccurred())\<close>.\<close>

definition expectNoError :: "error option \<Rightarrow> unit run" where
  "expectNoError err = (case err of None \<Rightarrow> Done () | Some e \<Rightarrow> Abort)"

definition expectError :: "error option \<Rightarrow> unit run" where
  "expectError err = (case err of None \<Rightarrow> Abort | Some e \<Rightarrow> Done ())"

definition waitForIPsecConfigToComplete :: "env \<Rightarrow> IPsecMode \<Rightarrow> world \<Rightarrow> unit run \<times> world" where
  "waitForIPsecConfigToComplete E mode w =
     (if mode = IPsecModeDisabled then
        (case ensureIPsecDisabled E w of (err, w1) \<Rightarrow> (expectNoError err, w1))
      else if mode = IPsecModeExternal then
        (case ensureIPsecMachineConfigRolloutComplete E w of (err, w1) \<Rightarrow> (expectNoError err, w1))
      else if mode = IPsecModeFull then
        (case ensureIPsecEnabled E w of (err, w1) \<Rightarrow> (expectNoError err, w1))
      else (Done (), w))"

section \<open>TrafficOracle: one ping-and-capture trial\<close>

text \<open>The two capture filters, \<open>fmt.Sprintf\<close> applied to the format constants.\<close>

definition tcpdumpESPFilter :: "string \<Rightarrow> string \<Rightarrow> string" where
  "tcpdumpESPFilter a b = ''esp and src '' @ a @ '' and dst '' @ b"

definition tcpdumpGeneveFilter :: "string \<Rightarrow> string \<Rightarrow> string" where
  "tcpdumpGeneveFilter a b = ''udp port 6081 and src '' @ a @ '' and dst '' @ b"

text \<open>The verb \<open>%v\<close> on an error, and \<open>fmt.Errorf\<close>, which keeps only the text.\<close>

definition fmt_v :: "error option \<Rightarrow> string" where
  "fmt_v err = (case err of None \<Rightarrow> ''<nil>'' | Some e \<Rightarrow> message e)"

definition Errorf :: "string \<Rightarrow> error" where
  "Errorf m = Error Unknown m"

text \<open>The commands of the capture tasks and of the ping task.\<close>

definition tcpdumpArgs :: "Pod \<Rightarrow> string \<Rightarrow> string \<Rightarrow> string list" where
  "tcpdumpArgs p iface flt =
     [''exec'', Name p, ''-n'', Namespace p, ''--'', ''timeout'', ''10'', ''tcpdump'', ''-i'', iface,
      ''-c'', ''1'', ''-v'', ''--direction=out'', flt]"

definition pingArgs :: "Pod \<Rightarrow> Pod \<Rightarrow> string list" where
  "pingArgs sp dp = [''exec'', Name sp, ''-n'', Namespace sp, ''--'', ''ping'', ''-c'', ''3'', PodIP dp]"

text \<open>
  \<open>errgroup.Group.Wait\<close> for a group of two tasks: it blocks until both have returned and
  gives the first error recorded; the flag tells whose error was recorded first when both
  tasks fail.
\<close>

definition errgroupWait2 :: "error option \<Rightarrow> error option \<Rightarrow> bool \<Rightarrow> error option" where
  "errgroupWait2 a b aFirst =
     (case a of
        None \<Rightarrow> b
      | Some x \<Rightarrow> (case b of None \<Rightarrow> a | Some y \<Rightarrow> if aFirst then a else b))"

definition srcCaptureError :: "error \<Rightarrow> error" where
  "srcCaptureError e = Errorf (''error capturing traffic on the source node: '' @ message e)"

definition dstCaptureError :: "error \<Rightarrow> error" where
  "dstCaptureError e = Errorf (''error capturing traffic on the dst node: '' @ message e)"

text \<open>What \<open>pingAndCheckNodeTraffic\<close> returns, from the errors of its three tasks.\<close>

definition trialResult ::
  "error option \<Rightarrow> error option \<Rightarrow> error option \<Rightarrow> bool \<Rightarrow> error option" where
  "trialResult srcErr dstErr pingErr srcFirst =
     (let err = errgroupWait2 (map_option srcCaptureError srcErr)
                  (map_option dstCaptureError dstErr) srcFirst
      in if err \<noteq> None \<or> pingErr \<noteq> None
         then Some (Errorf (''failed to detect underlay traffic on node, node tcpdump err: ''
                       @ fmt_v err @ '', ping err: '' @ fmt_v pingErr))
         else None)"

text \<open>
  The three tasks start together at the instant of the call; each ends after the time its
  command takes. The call returns when the last of them has ended. A nil pod pointer makes
  the function panic: a tcpdump pod is dereferenced on the goroutine of the spec, where the
  filters are built, a ping pod only inside the ping task, a goroutine of its own.
\<close>

definition finished :: "world \<Rightarrow> exec_result \<Rightarrow> nat" where
  "finished w r = Suc (clock w + execTime r)"

definition srcCapture :: "env \<Rightarrow> testNodeConfig \<Rightarrow> testNodeConfig \<Rightarrow> bool \<Rightarrow> world \<Rightarrow> exec_result" where
  "srcCapture E src dst ipsecTraffic w =
     (case (tcpdumpPod src, tcpdumpPod dst) of
        (Some st, Some dt) \<Rightarrow>
          oc E (clock w) (tcpdumpArgs st (hostInf src)
            (if ipsecTraffic then tcpdumpESPFilter (PodIP st) (PodIP dt)
             else tcpdumpGeneveFilter (PodIP st) (PodIP dt)))
      | _ \<Rightarrow> \<lparr>execErr = None, execTime = 0\<rparr>)"

definition dstCapture :: "env \<Rightarrow> testNodeConfig \<Rightarrow> testNodeConfig \<Rightarrow> bool \<Rightarrow> world \<Rightarrow> exec_result" where
  "dstCapture E src dst ipsecTraffic w =
     (case (tcpdumpPod src, tcpdumpPod dst) of
        (Some st, Some dt) \<Rightarrow>
          oc E (clock w) (tcpdumpArgs dt (hostInf dst)
            (if ipsecTraffic then tcpdumpESPFilter (PodIP dt) (PodIP st)
             else tcpdumpGeneveFilter (PodIP dt) (PodIP st)))
      | _ \<Rightarrow> \<lparr>execErr = None, execTime = 0\<rparr>)"

definition pingTestFromPod :: "env \<Rightarrow> testNodeConfig \<Rightarrow> testNodeConfig \<Rightarrow> world \<Rightarrow> exec_result" where
  "pingTestFromPod E src dst w =
     (case (pingPod src, pingPod dst) of
        (Some sp, Some dp) \<Rightarrow> oc E (clock w) (pingArgs sp dp)
      | _ \<Rightarrow> \<lparr>execErr = None, execTime = 0\<rparr>)"

definition podsUp :: "testNodeConfig \<Rightarrow> bool" where
  "podsUp n = (tcpdumpPod n \<noteq> None \<and> pingPod n \<noteq> None)"

definition pingAndCheckNodeTraffic ::
  "env \<Rightarrow> testNodeConfig \<Rightarrow> testNodeConfig \<Rightarrow> bool \<Rightarrow> world \<Rightarrow> error option run \<times> world" where
  "pingAndCheckNodeTraffic E src dst ipsecTraffic w =
     (if podsUp src \<and> podsUp dst then
        (let rs = srcCapture E src dst ipsecTraffic w;
             rd = dstCapture E src dst ipsecTraffic w;
             rp = pingTestFromPod E src dst w;
             res = trialResult (execErr rs) (execErr rd) (execErr rp) (errOnceSrcFirst E (clock w));
             returned = max (finished w rp) (max (finished w rs) (finished w rd))
         in (Done res, w\<lparr>clock := returned, log := log w @ [EvTrial ipsecTraffic res]\<rparr>))
      else if tcpdumpPod src = None \<or> tcpdumpPod dst = None then (Abort, w)
      else (Crash, w))"

section \<open>Test pods\<close>

text \<open>
  One of the two creation tasks of \<open>setupTestPods\<close>. \<open>launchHostNetworkedPodForTCPDump\<close>
  gives a pod or an error; \<open>CreateExecPodOrFail\<close> gives a pod or fails the test. The task
  is a function handed to \<open>createSync.Go\<close> and has no \<open>GinkgoRecover\<close>, so that the panic
  of the failed assertion kills the process.
\<close>

definition setupNode :: "env \<Rightarrow> testNodeConfig \<Rightarrow> world \<Rightarrow> error option run \<times> testNodeConfig \<times> world" where
  "setupNode E node w =
     (case launchPod E (clock w) (nodeName node) of
        Inl e \<Rightarrow> (Done (Some e), node\<lparr>tcpdumpPod := None\<rparr>, tick (EvLaunchPod (nodeName node) (Some e)) w)
      | Inr p \<Rightarrow>
          (let w1 = tick (EvLaunchPod (nodeName node) None) w;
               node1 = node\<lparr>tcpdumpPod := Some p\<rparr>
           in case createExecPod E (clock w1) (nodeName node) of
                None \<Rightarrow> (Crash, node1, tick (EvCreateExecPod (nodeName node) False) w1)
              | Some q \<Rightarrow> (Done None, node1\<lparr>pingPod := Some q\<rparr>,
                           tick (EvCreateExecPod (nodeName node) True) w1)))"

text \<open>
  \<open>setupTestPods\<close>: the image lookup is asserted; the two sides are then created by two
  tasks that share nothing, run here one after the other, and joined by an error group. When
  the first task kills the process the second one is not run.
\<close>

definition setupTestPods :: "env \<Rightarrow> world \<Rightarrow> error option run \<times> world" where
  "setupTestPods E w =
     (case config w of
        None \<Rightarrow> (Abort, w)
      | Some cfg \<Rightarrow>
          (case imageFromRelease E (clock w) of
             Some e \<Rightarrow> (Abort, tick (EvImage (Some e)) w)
           | None \<Rightarrow>
               (let w1 = tick (EvImage None) w in
                case setupNode E (srcNodeConfig cfg) w1 of
                  (r1, src', w2) \<Rightarrow>
                    if r1 = Crash then (Crash, w2\<lparr>config := Some (cfg\<lparr>srcNodeConfig := src'\<rparr>)\<rparr>)
                    else
                    (case setupNode E (dstNodeConfig cfg) w2 of
                       (r2, dst', w3) \<Rightarrow>
                         (let w4 = w3\<lparr>config := Some (cfg\<lparr>srcNodeConfig := src', dstNodeConfig := dst'\<rparr>)\<rparr>
                          in case r1 of
                               Crash \<Rightarrow> (Crash, w4)
                             | Abort \<Rightarrow> (Abort, w4)
                             | Done e1 \<Rightarrow>
                                 (case r2 of
                                    Crash \<Rightarrow> (Crash, w4)
                                  | Abort \<Rightarrow> (Abort, w4)
                                  | Done e2 \<Rightarrow>
                                      (Done (errgroupWait2 e1 e2 (errOnceSrcFirst E (clock w1))), w4)))))))"

definition andThen :: "unit run \<times> world \<Rightarrow> (world \<Rightarrow> 'a run \<times> world) \<Rightarrow> 'a run \<times> world" where
  "andThen r k =
     (case r of (Done u, w) \<Rightarrow> k w | (Abort, w) \<Rightarrow> (Abort, w) | (Crash, w) \<Rightarrow> (Crash, w))"

definition expecting :: "error option \<times> world \<Rightarrow> unit run \<times> world" where
  "expecting r = (case r of (err, w) \<Rightarrow> (expectNoError err, w))"

definition DeletePodWithWait :: "env \<Rightarrow> world \<Rightarrow> error option \<times> world" where
  "DeletePodWithWait E w = (deletePod E (clock w), tick (EvDeletePod (deletePod E (clock w))) w)"

text \<open>One step of \<open>cleanupTestPods\<close>: delete a pod, assert, and set its pointer to nil.\<close>

definition deleteAndClear :: "env \<Rightarrow> (testConfig \<Rightarrow> testConfig) \<Rightarrow> world \<Rightarrow> unit run \<times> world" where
  "deleteAndClear E clear w =
     andThen (expecting (DeletePodWithWait E w))
       (\<lambda>w1. (Done (), w1\<lparr>config := map_option clear (config w1)\<rparr>))"

definition cleanupTestPods :: "env \<Rightarrow> world \<Rightarrow> unit run \<times> world" where
  "cleanupTestPods E w =
     andThen (deleteAndClear E (\<lambda>c. c\<lparr>srcNodeConfig := (srcNodeConfig c)\<lparr>pingPod := None\<rparr>\<rparr>) w) (\<lambda>w.
     andThen (deleteAndClear E (\<lambda>c. c\<lparr>srcNodeConfig := (srcNodeConfig c)\<lparr>tcpdumpPod := None\<rparr>\<rparr>) w) (\<lambda>w.
     andThen (deleteAndClear E (\<lambda>c. c\<lparr>dstNodeConfig := (dstNodeConfig c)\<lparr>pingPod := None\<rparr>\<rparr>) w) (\<lambda>w.
     deleteAndClear E (\<lambda>c. c\<lparr>dstNodeConfig := (dstNodeConfig c)\<lparr>tcpdumpPod := None\<rparr>\<rparr>) w)))"

section \<open>Verification of a mode: the traffic checks\<close>

text \<open>
  The deferred function of the two checks: with the last value of \<open>err\<close> and the outcome
  the body ended with. The pods are kept when \<open>err\<close> is not nil and the namespace is not
  to be deleted on failure.
\<close>

definition deferredCleanup :: "env \<Rightarrow> error option \<Rightarrow> unit run \<Rightarrow> world \<Rightarrow> unit run \<times> world" where
  "deferredCleanup E err out w =
     (if err \<noteq> None \<and> \<not> DeleteNamespaceOnFailure E then (out, w)
      else (case cleanupTestPods E w of
              (Done u, w1) \<Rightarrow> (out, w1)
            | (Abort, w1) \<Rightarrow> (Abort, w1)
            | (Crash, w1) \<Rightarrow> (Crash, w1)))"

text \<open>
  The common body of \<open>checkForGeneveOnlyTraffic\<close> and \<open>checkForESPOnlyTraffic\<close>, which differ
  only in the flag of the trial that must succeed; the trial that must fail has the other
  flag.
\<close>

definition checkForOnlyTraffic :: "env \<Rightarrow> bool \<Rightarrow> world \<Rightarrow> unit run \<times> world" where
  "checkForOnlyTraffic E ipsecTraffic w =
     (case setupTestPods E w of
        (Crash, w1) \<Rightarrow> (Crash, w1)
      | (Abort, w1) \<Rightarrow> (Abort, w1)
      | (Done (Some e), w1) \<Rightarrow> (Abort, w1)
      | (Done None, w1) \<Rightarrow>
          (case config w1 of
             None \<Rightarrow> (Abort, w1)
           | Some cfg \<Rightarrow>
               (case pingAndCheckNodeTraffic E (srcNodeConfig cfg) (dstNodeConfig cfg) ipsecTraffic w1 of
                  (Crash, w2) \<Rightarrow> (Crash, w2)
                | (Abort, w2) \<Rightarrow> deferredCleanup E None Abort w2
                | (Done (Some e), w2) \<Rightarrow> deferredCleanup E (Some e) Abort w2
                | (Done None, w2) \<Rightarrow>
                    (case pingAndCheckNodeTraffic E (srcNodeConfig cfg) (dstNodeConfig cfg)
                            (\<not> ipsecTraffic) w2 of
                       (Crash, w3) \<Rightarrow> (Crash, w3)
                     | (Abort, w3) \<Rightarrow> deferredCleanup E None Abort w3
                     | (Done None, w3) \<Rightarrow> deferredCleanup E None Abort w3
                     | (Done (Some e), w3) \<Rightarrow> deferredCleanup E (Some e) (Done ()) w3))))"

definition checkForGeneveOnlyTraffic :: "env \<Rightarrow> world \<Rightarrow> unit run \<times> world" where
  "checkForGeneveOnlyTraffic E w = checkForOnlyTraffic E False w"

definition checkForESPOnlyTraffic :: "env \<Rightarrow> world \<Rightarrow> unit run \<times> world" where
  "checkForESPOnlyTraffic E w = checkForOnlyTraffic E True w"

definition checkTraffic :: "env \<Rightarrow> IPsecMode \<Rightarrow> world \<Rightarrow> unit run \<times> world" where
  "checkTraffic E mode w =
     (if mode = IPsecModeFull then checkForESPOnlyTraffic E w else checkForGeneveOnlyTraffic E w)"

text \<open>The trials in a log, each with its flag and whether it returned nil.\<close>

fun trialOf :: "event \<Rightarrow> (bool \<times> bool) option" where
  "trialOf (EvTrial ipsecTraffic res) = Some (ipsecTraffic, res = None)"
| "trialOf _ = None"

definition trials :: "event list \<Rightarrow> (bool \<times> bool) list" where
  "trials evs = List.map_filter trialOf evs"

section \<open>RolloutCoordinator: the scenario and its teardown\<close>

definition nsCertMachineConfigName :: string where
  "nsCertMachineConfigName = ''99-worker-north-south-ipsec-config''"

definition leftNodeIPsecConfigYaml :: string where
  "leftNodeIPsecConfigYaml = ''ipsec-left-node.yaml''"

definition rightNodeIPsecConfigYaml :: string where
  "rightNodeIPsecConfigYaml = ''ipsec-right-node.yaml''"

definition emptyNode :: testNodeConfig where
  "emptyNode = \<lparr>pingPod = None, tcpdumpPod = None, hostInf = [], nodeName = [], nodeIP = []\<rparr>"

text \<open>\<open>BeforeAll\<close>: the mode in force is read once and kept in the test configuration.\<close>

definition BeforeAll :: "env \<Rightarrow> world \<Rightarrow> unit run \<times> world" where
  "BeforeAll E w =
     (case getIPsecMode E w of
        ((m, Some e), w1) \<Rightarrow> (Abort, w1)
      | ((m, None), w1) \<Rightarrow>
          (Done (), w1\<lparr>config := Some \<lparr>ipsecMode = m, srcNodeConfig = emptyNode,
                                         dstNodeConfig = emptyNode\<rparr>\<rparr>))"

text \<open>\<open>oc.AsAdmin().Run(verb).Args(...).Execute()\<close>.\<close>

definition ocExecute :: "env \<Rightarrow> string list \<Rightarrow> world \<Rightarrow> error option \<times> world" where
  "ocExecute E args w =
     (execErr (oc E (clock w) args), tick (EvOc args (execErr (oc E (clock w) args))) w)"

text \<open>
  Modelled from the spec: \<open>undeployNmstateHandler\<close>, \<open>deleteNSCertMachineConfig\<close> and
  \<open>areWorkerMachineConfigPoolsReady\<close> are declared in other files of the package. The first
  removes the policy-rendering handler, the second the certificate machine config, and the
  third is the pool-readiness predicate keyed by extension name and desired presence.
\<close>

definition undeployNmstateHandler :: "env \<Rightarrow> world \<Rightarrow> error option \<times> world" where
  "undeployNmstateHandler E w =
     (undeployNmstate E (clock w), tick (EvUndeployNmstateHandler (undeployNmstate E (clock w))) w)"

definition deleteNSCertMachineConfig :: "env \<Rightarrow> world \<Rightarrow> error option \<times> world" where
  "deleteNSCertMachineConfig E w =
     (deleteNSCert E (clock w), tick (EvDeleteNSCertMachineConfig (deleteNSCert E (clock w))) w)"

definition areWorkerMachineConfigPoolsReady ::
  "env \<Rightarrow> string \<Rightarrow> bool \<Rightarrow> world \<Rightarrow> (bool \<times> error option) \<times> world" where
  "areWorkerMachineConfigPoolsReady E name present w =
     (goPair (workerPoolsReady E (clock w) name present),
      tick (EvWorkerPools name present (workerPoolsReady E (clock w) name present)) w)"

text \<open>
  \<open>o.Eventually(f, timeout, interval).Should(o.BeTrue())\<close>: \<open>f\<close> is tried at once and then
  at every interval until it gives true; the assertion fails when the timeout comes first.
  The number of tries is counted as for the rollout poll.
\<close>

fun Eventually :: "nat \<Rightarrow> (world \<Rightarrow> bool run \<times> world) \<Rightarrow> world \<Rightarrow> unit run \<times> world" where
  "Eventually 0 f w = (Abort, w)"
| "Eventually (Suc n) f w =
     (case f w of
        (Crash, w') \<Rightarrow> (Crash, w')
      | (Abort, w') \<Rightarrow> (Abort, w')
      | (Done True, w') \<Rightarrow> (Done (), w')
      | (Done False, w') \<Rightarrow> Eventually n f w')"

text \<open>The function that \<open>AfterEach\<close> polls after deleting the certificates.\<close>

definition AfterEach_poll :: "env \<Rightarrow> world \<Rightarrow> bool run \<times> world" where
  "AfterEach_poll E w =
     (case areWorkerMachineConfigPoolsReady E nsCertMachineConfigName False w of
        ((ready, Some e), w1) \<Rightarrow> (Abort, w1)
      | ((ready, None), w1) \<Rightarrow> (Done ready, w1))"

definition AfterEach :: "env \<Rightarrow> world \<Rightarrow> unit run \<times> world" where
  "AfterEach E w =
     (case config w of
        None \<Rightarrow> (Abort, w)
      | Some cfg \<Rightarrow>
          andThen (expecting (configureIPsecMode E (ipsecMode cfg) w)) (\<lambda>w.
          andThen (waitForIPsecConfigToComplete E (ipsecMode cfg) w) (\<lambda>w.
          andThen (expecting (ocExecute E [''delete'', ''-f'', rightNodeIPsecConfigYaml] w)) (\<lambda>w.
          andThen (expecting (ocExecute E [''delete'', ''-f'', leftNodeIPsecConfigYaml] w)) (\<lambda>w.
          andThen (expecting (undeployNmstateHandler E w)) (\<lambda>w.
          andThen (expecting (deleteNSCertMachineConfig E w)) (\<lambda>w.
          Eventually (Suc ((ipsecRolloutWaitDuration - 1) div ipsecRolloutWaitInterval))
            (AfterEach_poll E) w)))))))"

text \<open>The body of the table of mode transitions, run once for each target mode.\<close>

definition modeTransitionSpec :: "env \<Rightarrow> IPsecMode \<Rightarrow> world \<Rightarrow> unit run \<times> world" where
  "modeTransitionSpec E mode w =
     (case config w of
        None \<Rightarrow> (Abort, w)
      | Some cfg \<Rightarrow>
          andThen (checkTraffic E (ipsecMode cfg) w) (\<lambda>w.
          andThen (expecting (configureIPsecMode E mode w)) (\<lambda>w.
          andThen (waitForIPsecConfigToComplete E mode w) (\<lambda>w.
          checkTraffic E mode w))))"

text \<open>
  Ginkgo runs the \<open>AfterEach\<close> node after the body of every spec, whether the body ran to
  its end or was cut short by a failed assertion; the spec passes when both ran to their
  end. When the body killed the process there is no teardown.
\<close>

definition runSpec :: "env \<Rightarrow> (world \<Rightarrow> unit run \<times> world) \<Rightarrow> world \<Rightarrow> unit run \<times> world" where
  "runSpec E body w =
     (case body w of
        (r, w1) \<Rightarrow>
          if r = Crash then (Crash, w1)
          else (case AfterEach E w1 of
                  (r', w2) \<Rightarrow>
                    (if r' = Crash then Crash
                     else if r = Done () \<and> r' = Done () then Done () else Abort, w2)))"

text \<open>What the teardown must leave alone once the mode is written back, and the mode that
  \<open>BeforeAll\<close> put into the test configuration.\<close>

definition kept :: "world \<Rightarrow> Network \<times> testConfig option" where
  "kept w = (network w, config w)"

definition capturedMode :: "world \<Rightarrow> IPsecMode option" where
  "capturedMode w = map_option ipsecMode (config w)"

section \<open>Concrete clusters\<close>

definition okExec :: exec_result where
  "okExec = \<lparr>execErr = None, execTime = 0\<rparr>"

definition somePod :: "string \<Rightarrow> Pod" where
  "somePod n = \<lparr>Name = n, Namespace = ''e2e-test-ipsec'', PodIP = ''10.0.0.'' @ n\<rparr>"

text \<open>A cluster on which nothing fails, nobody else writes, and no daemon set exists.\<close>

definition quietEnv :: env where
  "quietEnv = \<lparr>netFault = (\<lambda>t. NoFault),
     dsGet = (\<lambda>t. (None, Some (Error NotFound ''daemonsets.apps ovn-ipsec-host not found''))),
     mcpReady = (\<lambda>t. Inr True),
     coReady = (\<lambda>t. Inr True),
     oc = (\<lambda>t args. okExec),
     errOnceSrcFirst = (\<lambda>t. True),
     DeleteNamespaceOnFailure = True,
     imageFromRelease = (\<lambda>t. None),
     launchPod = (\<lambda>t n. Inr (somePod n)),
     createExecPod = (\<lambda>t n. Some (somePod n)),
     deletePod = (\<lambda>t. None),
     undeployNmstate = (\<lambda>t. None),
     deleteNSCert = (\<lambda>t. None),
     workerPoolsReady = (\<lambda>t n p. Inr True)\<rparr>"

definition world0 :: world where
  "world0 = \<lparr>clock = 0, network = \<lparr>ipsecConfig = None, ResourceVersion = 7\<rparr>, log = [],
     config = None\<rparr>"

definition holding :: "IPsecMode \<Rightarrow> world" where
  "holding m = world0\<lparr>network := \<lparr>ipsecConfig = Some \<lparr>Mode = m\<rparr>, ResourceVersion = 7\<rparr>\<rparr>"

text \<open>Another writer sets the mode between the first read and the first write.\<close>

definition rivalEnv :: env where
  "rivalEnv = quietEnv\<lparr>netFault := (\<lambda>t. if t = 1 then Rival (Some \<lparr>Mode = ''External''\<rparr>) else NoFault)\<rparr>"

text \<open>Another writer sets the mode before every call.\<close>

definition stormEnv :: env where
  "stormEnv = quietEnv\<lparr>netFault := (\<lambda>t. Rival (Some \<lparr>Mode = ''External''\<rparr>))\<rparr>"


text \<open>The daemon set exists with a pod missing, and the pools never finish their rollout.\<close>

definition stuckEnv :: env where
  "stuckEnv = quietEnv\<lparr>dsGet := (\<lambda>t. (Some \<lparr>DesiredNumberScheduled = 3, NumberReady = 2\<rparr>, None)),
     mcpReady := (\<lambda>t. Inr False)\<rparr>"

text \<open>The pools and the operators are ready, the daemon set has a pod missing.\<close>

definition lagEnv :: env where
  "lagEnv = quietEnv\<lparr>dsGet := (\<lambda>t. (Some \<lparr>DesiredNumberScheduled = 3, NumberReady = 2\<rparr>, None))\<rparr>"

text \<open>The pools, the operators and the daemon set are all ready.\<close>

definition readyEnv :: env where
  "readyEnv = quietEnv\<lparr>dsGet := (\<lambda>t. (Some \<lparr>DesiredNumberScheduled = 3, NumberReady = 3\<rparr>, None))\<rparr>"

text \<open>No daemon set, healthy operators, and pools that never finish their rollout.\<close>

definition poolsLagEnv :: env where
  "poolsLagEnv = quietEnv\<lparr>mcpReady := (\<lambda>t. Inr False)\<rparr>"

text \<open>
  The lookup of the daemon set fails, and the client hands back the empty object it had
  allocated for the answer together with the error: once with an error that is not
  transient, once with a connection reset.
\<close>

definition forbiddenEnv :: env where
  "forbiddenEnv = quietEnv\<lparr>dsGet := (\<lambda>t. (Some \<lparr>DesiredNumberScheduled = 0, NumberReady = 0\<rparr>,
      Some (Error Unknown ''daemonsets.apps is forbidden'')))\<rparr>"

definition resetEnv :: env where
  "resetEnv = quietEnv\<lparr>dsGet := (\<lambda>t. (Some \<lparr>DesiredNumberScheduled = 0, NumberReady = 0\<rparr>,
      Some (Error ConnReset ''read: connection reset by peer'')))\<rparr>"

text \<open>
  A cluster in Full mode and a cluster without overlay encryption: the capture that waits for
  the other signature ends with an error after its ten seconds.
\<close>

definition fullClusterEnv :: env where
  "fullClusterEnv = quietEnv\<lparr>oc := (\<lambda>t args. if take 3 (last args) = ''udp''
       then \<lparr>execErr = Some (Error Unknown ''exit status 124''), execTime = 10\<rparr>
       else \<lparr>execErr = None, execTime = 2\<rparr>)\<rparr>"

definition plainClusterEnv :: env where
  "plainClusterEnv = quietEnv\<lparr>oc := (\<lambda>t args. if take 3 (last args) = ''esp''
       then \<lparr>execErr = Some (Error Unknown ''exit status 124''), execTime = 10\<rparr>
       else \<lparr>execErr = None, execTime = 2\<rparr>)\<rparr>"

definition srcNode :: testNodeConfig where
  "srcNode = \<lparr>pingPod = Some (somePod ''1''), tcpdumpPod = Some (somePod ''2''), hostInf = ''ens3'',
     nodeName = ''worker-0'', nodeIP = ''192.168.0.10''\<rparr>"

definition dstNode :: testNodeConfig where
  "dstNode = \<lparr>pingPod = Some (somePod ''3''), tcpdumpPod = Some (somePod ''4''), hostInf = ''ens3'',
     nodeName = ''worker-1'', nodeIP = ''192.168.0.11''\<rparr>"

text \<open>A world whose test configuration names two nodes, with the mode stored.\<close>

definition testWorld :: "IPsecMode \<Rightarrow> world" where
  "testWorld m = (holding m)\<lparr>config := Some \<lparr>ipsecMode = m,
      srcNodeConfig = emptyNode\<lparr>hostInf := ''ens3'', nodeName := ''1'', nodeIP := ''192.168.0.1''\<rparr>,
      dstNodeConfig = emptyNode\<lparr>hostInf := ''ens3'', nodeName := ''2'', nodeIP := ''192.168.0.2''\<rparr>\<rparr>\<rparr>"

text \<open>
  A cluster without overlay encryption on which pods can be created while the first traffic
  check of a scenario runs and no longer afterwards. On the first cluster it is the exec
  pod that cannot be created any more, so that \<open>CreateExecPodOrFail\<close> fails its assertion; on
  the second one it is the capture pod, so that \<open>launchHostNetworkedPodForTCPDump\<close> returns
  an error.
\<close>

definition execPodFailsEnv :: env where
  "execPodFailsEnv = plainClusterEnv\<lparr>createExecPod := (\<lambda>t n. if t < 20 then Some (somePod n) else None)\<rparr>"

definition launchFailsEnv :: env where
  "launchFailsEnv = plainClusterEnv\<lparr>launchPod := (\<lambda>t n. if t < 20 then Inr (somePod n)
       else Inl (Error Unknown ''timed out waiting for the condition''))\<rparr>"

section \<open>Properties of the ModeStore\<close>

lemma tick_simps [simp]:
  "clock (tick ev w) = Suc (clock w)"
  "network (tick ev w) = network w"
  "log (tick ev w) = log w @ [ev]"
  "config (tick ev w) = config w"
  by (simp_all add: tick_def)

lemma rivalWrite_simps [simp]:
  "clock (rivalWrite E w) = clock w"
  "log (rivalWrite E w) = log w"
  "config (rivalWrite E w) = config w"
  by (simp_all add: rivalWrite_def split: fault.splits)

lemma NetworksGet_quiet:
  "netFault E (clock w) = NoFault \<Longrightarrow> NetworksGet E w = ((network w, None), tick (EvNetworksGet None) w)"
  by (simp add: NetworksGet_def rivalWrite_def callError_def)

lemma NetworksUpdate_quiet:
  "netFault E (clock w) = NoFault \<Longrightarrow> ResourceVersion obj = ResourceVersion (network w) \<Longrightarrow>
   NetworksUpdate E obj w =
     (None, tick (EvNetworksUpdate (ipsecConfig obj) None) (w\<lparr>network := obj\<lparr>ResourceVersion := Suc (ResourceVersion obj)\<rparr>\<rparr>))"
  by (simp add: NetworksUpdate_def rivalWrite_def callError_def)

lemma fn_noop:
  assumes "netFault E (clock w) = NoFault" "ipsecConfig (network w) = Some \<lparr>Mode = M\<rparr>"
  shows "configureIPsecMode_fn E M w = (None, tick (EvNetworksGet None) w)"
  using assms by (simp add: configureIPsecMode_fn_def NetworksGet_quiet)

lemma fn_write:
  assumes "netFault E (clock w) = NoFault" "netFault E (Suc (clock w)) = NoFault"
    "ipsecConfig (network w) \<noteq> Some \<lparr>Mode = M\<rparr>"
  shows "configureIPsecMode_fn E M w =
     (None, tick (EvNetworksUpdate (Some \<lparr>Mode = M\<rparr>) None)
        ((tick (EvNetworksGet None) w)\<lparr>network := \<lparr>ipsecConfig = Some \<lparr>Mode = M\<rparr>,
            ResourceVersion = Suc (ResourceVersion (network w))\<rparr>\<rparr>))"
  using assms
  apply (simp add: configureIPsecMode_fn_def NetworksGet_quiet NetworksUpdate_quiet split: option.splits)
  apply auto
  done

lemma configure_first_attempt:
  "configureIPsecMode_fn E M w = (None, w1) \<Longrightarrow> configureIPsecMode E M w = (None, w1)"
  by (simp add: configureIPsecMode_def DefaultRetry_Steps_def eval_nat_numeral)

lemma writes_tick [simp]:
  "writes (tick ev w) = writes w + (if isUpdate ev then 1 else 0)"
  by (simp add: writes_def)

lemma writes_network_update [simp]: "writes (w\<lparr>network := n\<rparr>) = writes w"
  by (simp add: writes_def)

lemma fn_log:
  "configureIPsecMode_fn E M w = (r, w') \<Longrightarrow>
     (\<exists>e. log w' = log w @ [EvNetworksGet e]) \<or> (\<exists>c e. log w' = log w @ [EvNetworksGet None, EvNetworksUpdate c e])"
  by (auto simp: configureIPsecMode_fn_def NetworksGet_def NetworksUpdate_def Let_def
      split: option.splits if_splits)

lemma fn_counts:
  assumes "configureIPsecMode_fn E M w = (r, w')"
  shows "reads w' = Suc (reads w) \<and> writes w' \<le> Suc (writes w) \<and> writes w \<le> writes w'"
  using fn_log [OF assms] by (auto simp: reads_def writes_def)

lemma retry_counts:
  "RetryOnConflict n (configureIPsecMode_fn E M) l w = (r, w') \<Longrightarrow>
     reads w' \<le> reads w + n \<and> writes w' - writes w \<le> reads w' - reads w \<and> reads w \<le> reads w'"
proof (induction n arbitrary: l w)
  case 0
  then show ?case by simp
next
  case (Suc n)
  obtain r1 w1 where a: "configureIPsecMode_fn E M w = (r1, w1)" by (cases "configureIPsecMode_fn E M w")
  note c = fn_counts [OF a]
  show ?case
  proof (cases r1)
    case None
    with Suc.prems a c show ?thesis by auto
  next
    case (Some e)
    show ?thesis
    proof (cases "IsConflict e")
      case True
      with Suc.prems a Some have "RetryOnConflict n (configureIPsecMode_fn E M) (Some e) w1 = (r, w')" by simp
      from Suc.IH [OF this] c show ?thesis by auto
    next
      case False
      with Suc.prems a Some c show ?thesis by auto
    qed
  qed
qed

lemma retry_exhausted:
  "RetryOnConflict n (configureIPsecMode_fn E M) l w = (Some e, w') \<Longrightarrow> IsConflict e \<Longrightarrow>
     reads w' = reads w + n"
proof (induction n arbitrary: l w)
  case 0
  then show ?case by simp
next
  case (Suc n)
  obtain r1 w1 where a: "configureIPsecMode_fn E M w = (r1, w1)" by (cases "configureIPsecMode_fn E M w")
  note c = fn_counts [OF a]
  show ?case
  proof (cases r1)
    case None
    with Suc.prems a show ?thesis by simp
  next
    case (Some e1)
    show ?thesis
    proof (cases "IsConflict e1")
      case True
      with Suc.prems a Some have "RetryOnConflict n (configureIPsecMode_fn E M) (Some e1) w1 = (Some e, w')" by simp
      from Suc.IH [OF this Suc.prems(2)] c show ?thesis by simp
    next
      case False
      with Suc.prems a Some show ?thesis by auto
    qed
  qed
qed

lemma configure_twice_quiet:
  assumes q: "netFault E (clock w) = NoFault" "netFault E (Suc (clock w)) = NoFault"
    "netFault E (Suc (Suc (clock w))) = NoFault"
  shows "\<exists>w1 w2. configureIPsecMode E M w = (None, w1) \<and> configureIPsecMode E M w1 = (None, w2)
      \<and> writes w1 = writes w + (if ipsecConfig (network w) = Some \<lparr>Mode = M\<rparr> then 0 else 1)
      \<and> writes w2 = writes w1 \<and> network w2 = network w1
      \<and> ipsecConfig (network w1) = Some \<lparr>Mode = M\<rparr>"
proof (cases "ipsecConfig (network w) = Some \<lparr>Mode = M\<rparr>")
  case True
  let ?w1 = "tick (EvNetworksGet None) w"
  have 1: "configureIPsecMode E M w = (None, ?w1)"
    by (rule configure_first_attempt [OF fn_noop [OF q(1) True]])
  have 2: "configureIPsecMode E M ?w1 = (None, tick (EvNetworksGet None) ?w1)"
    by (rule configure_first_attempt [OF fn_noop]) (simp_all add: q True)
  from 1 2 True show ?thesis by simp
next
  case False
  let ?w1 = "tick (EvNetworksUpdate (Some \<lparr>Mode = M\<rparr>) None)
        ((tick (EvNetworksGet None) w)\<lparr>network := \<lparr>ipsecConfig = Some \<lparr>Mode = M\<rparr>,
            ResourceVersion = Suc (ResourceVersion (network w))\<rparr>\<rparr>)"
  have 1: "configureIPsecMode E M w = (None, ?w1)"
    by (rule configure_first_attempt [OF fn_write [OF q(1,2) False]])
  have 2: "configureIPsecMode E M ?w1 = (None, tick (EvNetworksGet None) ?w1)"
    by (rule configure_first_attempt [OF fn_noop]) (simp_all add: q)
  from 1 2 False show ?thesis by simp
qed

text \<open>
  C6 (as amended). When the read of the network object succeeds, \<open>getIPsecMode\<close> returns
  Disabled if the IPsec config sub-record is missing, the legacy default Full if the
  sub-record exists with an empty mode string, and any non-empty stored mode unchanged.
\<close>

theorem getIPsecMode_absence:
  assumes "NetworksGet E w = ((net, None), w1)"
  shows "getIPsecMode E w =
           ((if ipsecConfig net = None then IPsecModeDisabled
             else if Mode (the (ipsecConfig net)) = [] then IPsecModeFull
             else Mode (the (ipsecConfig net)), None), w1)"
  using assms by (auto simp: getIPsecMode_def split: option.splits)

theorem getIPsecMode_missing_counterexample:
  "ipsecConfig (network world0) = None \<and>
   fst (getIPsecMode quietEnv world0) = (IPsecModeDisabled, None) \<and>
   IPsecModeDisabled \<noteq> IPsecModeFull"
  by (simp add: getIPsecMode_def NetworksGet_def rivalWrite_def callError_def quietEnv_def world0_def
      IPsecModeDisabled_def IPsecModeFull_def Let_def)

theorem getIPsecMode_absence_witness:
  "getIPsecMode quietEnv (holding []) = ((IPsecModeFull, None), tick (EvNetworksGet None) (holding []))
   \<and> getIPsecMode quietEnv world0 = ((IPsecModeDisabled, None), tick (EvNetworksGet None) world0)
   \<and> getIPsecMode quietEnv (holding ''External'') = ((''External'', None), tick (EvNetworksGet None) (holding ''External''))"
proof -
  have q: "\<And>w. NetworksGet quietEnv w = ((network w, None), tick (EvNetworksGet None) w)"
    by (simp add: NetworksGet_quiet quietEnv_def)
  show ?thesis
    using getIPsecMode_absence [OF q, of "holding []"] getIPsecMode_absence [OF q, of world0]
      getIPsecMode_absence [OF q, of "holding ''External''"]
    by (simp add: holding_def world0_def)
qed

text \<open>
  C10. The no-op test of \<open>configureIPsecMode\<close> compares the desired mode with the stored
  mode string itself: on a record whose mode string is empty, which \<open>getIPsecMode\<close> reports
  as Full, \<open>configureIPsecMode\<close> with Full changes the record and performs one write.
\<close>

theorem configureIPsecMode_empty_mode_writes:
  assumes "ipsecConfig (network w) = Some c" "Mode c = []"
    and "netFault E (clock w) = NoFault" "netFault E (Suc (clock w)) = NoFault"
  shows "fst (getIPsecMode E w) = (IPsecModeFull, None) \<and>
         (\<exists>w'. configureIPsecMode E IPsecModeFull w = (None, w') \<and>
               log w' = log w @ [EvNetworksGet None, EvNetworksUpdate (Some \<lparr>Mode = IPsecModeFull\<rparr>) None] \<and>
               writes w' = Suc (writes w) \<and>
               ipsecConfig (network w') = Some \<lparr>Mode = IPsecModeFull\<rparr> \<and>
               ipsecConfig (network w') \<noteq> ipsecConfig (network w))"
proof -
  have ne: "ipsecConfig (network w) \<noteq> Some \<lparr>Mode = IPsecModeFull\<rparr>"
    using assms(1,2) by (auto simp: IPsecModeFull_def)
  have g: "fst (getIPsecMode E w) = (IPsecModeFull, None)"
    using assms by (simp add: getIPsecMode_def NetworksGet_quiet)
  from configure_first_attempt [OF fn_write [OF assms(3,4) ne]] ne g
  show ?thesis by simp
qed

theorem configureIPsecMode_empty_mode_writes_witness:
  "fst (getIPsecMode quietEnv (holding [])) = (IPsecModeFull, None) \<and>
   writes (snd (configureIPsecMode quietEnv IPsecModeFull (holding []))) = 1 \<and>
   ipsecConfig (network (snd (configureIPsecMode quietEnv IPsecModeFull (holding [])))) = Some \<lparr>Mode = ''Full''\<rparr>"
proof -
  have a: "ipsecConfig (network (holding [])) = Some \<lparr>Mode = []\<rparr>" "Mode \<lparr>Mode = []\<rparr> = []"
    by (simp_all add: holding_def)
  have b: "netFault quietEnv (clock (holding [])) = NoFault" "netFault quietEnv (Suc (clock (holding []))) = NoFault"
    by (simp_all add: quietEnv_def)
  have c: "writes (holding []) = 0" by (simp add: writes_def holding_def world0_def)
  from configureIPsecMode_empty_mode_writes [OF a b] c show ?thesis
    by (auto simp: IPsecModeFull_def)
qed

text \<open>
  C5 (as amended). \<open>configureIPsecMode\<close> is a no-op when the stored mode already equals the
  desired mode: with no fault and no other writer, the second of two calls in a row performs
  no write, and the two calls together perform one write when the record did not hold the
  mode before and none when it did. When an attempt ends in a conflict the whole
  read-compare-write sequence is run again; it is run at most five times, each run writes at
  most once, and a conflict is returned only after five runs.
\<close>

theorem configureIPsecMode_noop_and_retry:
  "(netFault E (clock w) = NoFault \<and> netFault E (Suc (clock w)) = NoFault \<and>
    netFault E (Suc (Suc (clock w))) = NoFault \<longrightarrow>
      (\<exists>w1 w2. configureIPsecMode E M w = (None, w1) \<and> configureIPsecMode E M w1 = (None, w2)
        \<and> writes w1 = writes w + (if ipsecConfig (network w) = Some \<lparr>Mode = M\<rparr> then 0 else 1)
        \<and> writes w2 = writes w1 \<and> network w2 = network w1
        \<and> ipsecConfig (network w1) = Some \<lparr>Mode = M\<rparr>))
   \<and> (\<forall>e w1. configureIPsecMode_fn E M w = (Some e, w1) \<and> IsConflict e \<longrightarrow>
         configureIPsecMode E M w = RetryOnConflict 4 (configureIPsecMode_fn E M) (Some e) w1
         \<and> reads w + 2 \<le> reads (snd (configureIPsecMode E M w)))
   \<and> reads (snd (configureIPsecMode E M w)) \<le> reads w + DefaultRetry_Steps
   \<and> writes (snd (configureIPsecMode E M w)) - writes w
        \<le> reads (snd (configureIPsecMode E M w)) - reads w
   \<and> (\<forall>e. fst (configureIPsecMode E M w) = Some e \<and> IsConflict e \<longrightarrow>
         reads (snd (configureIPsecMode E M w)) = reads w + DefaultRetry_Steps)"
proof (intro conjI impI allI)
  assume "netFault E (clock w) = NoFault \<and> netFault E (Suc (clock w)) = NoFault \<and>
    netFault E (Suc (Suc (clock w))) = NoFault"
  then show "\<exists>w1 w2. configureIPsecMode E M w = (None, w1) \<and> configureIPsecMode E M w1 = (None, w2)
        \<and> writes w1 = writes w + (if ipsecConfig (network w) = Some \<lparr>Mode = M\<rparr> then 0 else 1)
        \<and> writes w2 = writes w1 \<and> network w2 = network w1
        \<and> ipsecConfig (network w1) = Some \<lparr>Mode = M\<rparr>"
    using configure_twice_quiet by blast
next
  fix e w1
  assume a: "configureIPsecMode_fn E M w = (Some e, w1) \<and> IsConflict e"
  then show eq: "configureIPsecMode E M w = RetryOnConflict 4 (configureIPsecMode_fn E M) (Some e) w1"
    by (simp add: configureIPsecMode_def DefaultRetry_Steps_def eval_nat_numeral)
  obtain r2 w2 where b: "configureIPsecMode_fn E M w1 = (r2, w2)"
    by (cases "configureIPsecMode_fn E M w1")
  obtain r w' where c: "configureIPsecMode E M w = (r, w')" by (cases "configureIPsecMode E M w")
  have "reads w2 \<le> reads w'"
  proof (cases "\<exists>e2. r2 = Some e2 \<and> IsConflict e2")
    case True
    then obtain e2 where "r2 = Some e2" "IsConflict e2" by blast
    with eq b c have "RetryOnConflict 3 (configureIPsecMode_fn E M) (Some e2) w2 = (r, w')"
      by (simp add: eval_nat_numeral)
    from retry_counts [OF this] show ?thesis by simp
  next
    case False
    with eq b c have "w' = w2" by (cases r2) (auto simp: eval_nat_numeral)
    then show ?thesis by simp
  qed
  with fn_counts [OF b] fn_counts [of E M w "Some e" w1] a c
  show "reads w + 2 \<le> reads (snd (configureIPsecMode E M w))" by simp
next
  obtain r w' where c: "configureIPsecMode E M w = (r, w')" by (cases "configureIPsecMode E M w")
  then have d: "RetryOnConflict DefaultRetry_Steps (configureIPsecMode_fn E M) None w = (r, w')"
    by (simp add: configureIPsecMode_def)
  from retry_counts [OF d] c
  show "reads (snd (configureIPsecMode E M w)) \<le> reads w + DefaultRetry_Steps"
    and "writes (snd (configureIPsecMode E M w)) - writes w
        \<le> reads (snd (configureIPsecMode E M w)) - reads w" by simp_all
next
  fix e
  assume a: "fst (configureIPsecMode E M w) = Some e \<and> IsConflict e"
  obtain r w' where c: "configureIPsecMode E M w = (r, w')" by (cases "configureIPsecMode E M w")
  with a have d: "RetryOnConflict DefaultRetry_Steps (configureIPsecMode_fn E M) None w = (Some e, w')"
    by (simp add: configureIPsecMode_def)
  from retry_exhausted [OF d] a c
  show "reads (snd (configureIPsecMode E M w)) = reads w + DefaultRetry_Steps" by simp
qed

theorem configureIPsecMode_twice_counterexample:
  "fst (configureIPsecMode quietEnv IPsecModeFull (holding ''Full'')) = None \<and>
   fst (configureIPsecMode quietEnv IPsecModeFull
          (snd (configureIPsecMode quietEnv IPsecModeFull (holding ''Full'')))) = None \<and>
   writes (snd (configureIPsecMode quietEnv IPsecModeFull
          (snd (configureIPsecMode quietEnv IPsecModeFull (holding ''Full''))))) = 0"
  by code_simp


theorem configureIPsecMode_noop_and_retry_witness:
  "writes (snd (configureIPsecMode quietEnv IPsecModeFull (holding ''Disabled''))) = 1 \<and>
   writes (snd (configureIPsecMode quietEnv IPsecModeFull
      (snd (configureIPsecMode quietEnv IPsecModeFull (holding ''Disabled''))))) = 1 \<and>
   fst (configureIPsecMode_fn rivalEnv IPsecModeFull (holding ''Disabled''))
      = Some (Error Conflict ''the object has been modified'') \<and>
   fst (configureIPsecMode rivalEnv IPsecModeFull (holding ''Disabled'')) = None \<and>
   2 \<le> reads (snd (configureIPsecMode rivalEnv IPsecModeFull (holding ''Disabled''))) \<and>
   fst (configureIPsecMode stormEnv IPsecModeFull (holding ''Disabled''))
      = Some (Error Conflict ''the object has been modified'') \<and>
   reads (snd (configureIPsecMode stormEnv IPsecModeFull (holding ''Disabled''))) = 5"
proof -
  let ?w = "holding ''Disabled''"
  have w0: "writes ?w = 0" "reads ?w = 0" "clock ?w = 0"
    "ipsecConfig (network ?w) \<noteq> Some \<lparr>Mode = IPsecModeFull\<rparr>"
    by (simp_all add: writes_def reads_def holding_def world0_def IPsecModeFull_def)
  have q: "netFault quietEnv (clock ?w) = NoFault \<and> netFault quietEnv (Suc (clock ?w)) = NoFault \<and>
    netFault quietEnv (Suc (Suc (clock ?w))) = NoFault"
    by (simp add: quietEnv_def)
  note T1 = configureIPsecMode_noop_and_retry [of quietEnv ?w IPsecModeFull, THEN conjunct1, rule_format, OF q]
  from T1 w0
  have twice: "writes (snd (configureIPsecMode quietEnv IPsecModeFull ?w)) = 1 \<and>
     writes (snd (configureIPsecMode quietEnv IPsecModeFull
        (snd (configureIPsecMode quietEnv IPsecModeFull ?w)))) = 1"
    by auto
  have c1: "fst (configureIPsecMode_fn rivalEnv IPsecModeFull ?w)
      = Some (Error Conflict ''the object has been modified'')"
    by code_simp
  have c2: "IsConflict (Error Conflict ''the object has been modified'')"
    by (simp add: IsConflict_def)
  from c1 have c3: "configureIPsecMode_fn rivalEnv IPsecModeFull ?w =
     (Some (Error Conflict ''the object has been modified''),
      snd (configureIPsecMode_fn rivalEnv IPsecModeFull ?w))"
    by (simp add: prod_eq_iff)
  from configureIPsecMode_noop_and_retry [of rivalEnv ?w IPsecModeFull, THEN conjunct2,
      THEN conjunct1, rule_format, OF conjI, OF c3 c2] w0
  have rival: "2 \<le> reads (snd (configureIPsecMode rivalEnv IPsecModeFull ?w))"
    by auto
  have r2: "fst (configureIPsecMode rivalEnv IPsecModeFull ?w) = None"
    by code_simp
  have s1: "fst (configureIPsecMode stormEnv IPsecModeFull ?w)
      = Some (Error Conflict ''the object has been modified'')"
    by code_simp
  from configureIPsecMode_noop_and_retry [of stormEnv ?w IPsecModeFull, THEN conjunct2,
      THEN conjunct2, THEN conjunct2, THEN conjunct2, rule_format, OF conjI, OF s1 c2] w0
  have storm: "reads (snd (configureIPsecMode stormEnv IPsecModeFull ?w)) = 5"
    by (auto simp: DefaultRetry_Steps_def)
  from twice c1 r2 rival s1 storm show ?thesis by simp
qed

section \<open>Properties of the readiness poll and of the probes\<close>

lemma loop_success:
  assumes ext: "\<And>v. \<exists>l. log (snd (cond v)) = log v @ l"
  shows "loopConditionUntilContext n cond w = (None, w') \<Longrightarrow>
     \<exists>v pre. log v = log w @ pre \<and> cond v = ((True, None), w')"
proof (induction n arbitrary: w)
  case 0
  then show ?case by simp
next
  case (Suc n)
  obtain ok err w1 where c: "cond w = ((ok, err), w1)" by (metis prod.collapse)
  show ?case
  proof (cases "err \<noteq> None \<or> ok")
    case True
    with Suc.prems c have "err = None" "ok" "w1 = w'" by auto
    with c have "log w = log w @ [] \<and> cond w = ((True, None), w')" by simp
    then show ?thesis by blast
  next
    case False
    with Suc.prems c have "loopConditionUntilContext n cond w1 = (None, w')" by simp
    from Suc.IH [OF this] obtain v pre where v: "log v = log w1 @ pre" "cond v = ((True, None), w')"
      by blast
    from ext [of w] c obtain l where "log w1 = log w @ l" by auto
    with v have "log v = log w @ (l @ pre)" by simp
    with v(2) show ?thesis by blast
  qed
qed

lemma poll_success:
  assumes ext: "\<And>v. \<exists>l. log (snd (cond v)) = log v @ l"
    and p: "PollUntilContextTimeout i t cond w = (None, w')"
  shows "\<exists>v pre. log v = log w @ pre \<and> cond v = ((True, None), w')"
proof -
  obtain ok err w1 where c: "cond w = ((ok, err), w1)" by (metis prod.collapse)
  show ?thesis
  proof (cases "err \<noteq> None \<or> ok")
    case True
    with p c have "err = None" "ok" "w1 = w'" by (auto simp: PollUntilContextTimeout_def)
    with c have "log w = log w @ [] \<and> cond w = ((True, None), w')" by simp
    then show ?thesis by blast
  next
    case False
    with p c have "loopConditionUntilContext ((t - 1) div i) cond w1 = (None, w')"
      by (simp add: PollUntilContextTimeout_def)
    from loop_success [OF ext this] obtain v pre where v: "log v = log w1 @ pre" "cond v = ((True, None), w')"
      by blast
    from ext [of w] c obtain l where "log w1 = log w @ l" by auto
    with v have "log v = log w @ (l @ pre)" by simp
    with v(2) show ?thesis by blast
  qed
qed

lemma goPair_True [simp]: "goPair r = (True, e) \<longleftrightarrow> r = Inr True \<and> e = None"
  by (cases r) auto

lemma mcp_cond_true:
  "ensureIPsecMachineConfigRolloutComplete_cond E v = ((True, None), w') \<Longrightarrow>
   log w' = log v @ [EvMachineConfigPools (Inr True), EvClusterOperators (Inr True)]"
  by (auto simp: ensureIPsecMachineConfigRolloutComplete_cond_def areMachineConfigPoolsReadyWithIPsec_def
      areClusterOperatorsReady_def split: prod.splits if_splits)

lemma mcp_cond_ext:
  "\<exists>l. log (snd (ensureIPsecMachineConfigRolloutComplete_cond E v)) = log v @ l"
  by (auto simp: ensureIPsecMachineConfigRolloutComplete_cond_def areMachineConfigPoolsReadyWithIPsec_def
      areClusterOperatorsReady_def split: prod.splits if_splits)

lemma getIPsecDaemonSet_log:
  "log (snd (getIPsecDaemonSet E v)) = log v @ [EvDaemonSetsGet (fst (dsGet E (clock v))) (snd (dsGet E (clock v)))]"
  by (auto simp: getIPsecDaemonSet_def DaemonSetsGet_def split: prod.splits option.splits)

lemma getIPsecDaemonSet_absent:
  "fst (getIPsecDaemonSet E v) = (None, None) \<longleftrightarrow>
     (dsGet E (clock v) = (None, None) \<or> (\<exists>e. snd (dsGet E (clock v)) = Some e \<and> IsNotFound e))"
  by (auto simp: getIPsecDaemonSet_def DaemonSetsGet_def split: prod.splits option.splits)

lemma disabled_cond_true:
  "ensureIPsecDisabled_cond E v = ((True, None), w') \<Longrightarrow>
   fst (getIPsecDaemonSet E v) = (None, None) \<and>
   log w' = log v @ [EvDaemonSetsGet (fst (dsGet E (clock v))) (snd (dsGet E (clock v))),
                     EvClusterOperators (Inr True)]"
  using getIPsecDaemonSet_log [of E v]
  by (auto simp: ensureIPsecDisabled_cond_def areClusterOperatorsReady_def split: prod.splits if_splits)

lemma disabled_cond_ext:
  "\<exists>l. log (snd (ensureIPsecDisabled_cond E v)) = log v @ l"
  using getIPsecDaemonSet_log [of E v]
  by (auto simp: ensureIPsecDisabled_cond_def areClusterOperatorsReady_def split: prod.splits if_splits)

lemma isIPsecDaemonSetRunning_log:
  "log (snd (isIPsecDaemonSetRunning E v)) = log (snd (getIPsecDaemonSet E v))"
  by (auto simp: isIPsecDaemonSetRunning_def split: prod.splits option.splits)

lemma enabled_cond_ext:
  "\<exists>l. log (snd (ensureIPsecEnabled_cond E v)) = log v @ l"
  using getIPsecDaemonSet_log [of E v] isIPsecDaemonSetRunning_log [of E v]
  by (auto simp: ensureIPsecEnabled_cond_def areClusterOperatorsReady_def split: prod.splits if_splits)

lemma disabled_cond_no_mcp:
  "filter isMcp (log (snd (ensureIPsecDisabled_cond E v))) = filter isMcp (log v)"
  using getIPsecDaemonSet_log [of E v]
  by (auto simp: ensureIPsecDisabled_cond_def areClusterOperatorsReady_def split: prod.splits if_splits)

lemma loop_no_mcp:
  assumes "\<And>v. filter isMcp (log (snd (cond v))) = filter isMcp (log v)"
  shows "filter isMcp (log (snd (loopConditionUntilContext n cond w))) = filter isMcp (log w)"
proof (induction n arbitrary: w)
  case 0
  show ?case by simp
next
  case (Suc n)
  obtain ok err w1 where c: "cond w = ((ok, err), w1)" by (metis prod.collapse)
  from assms [of w] c have "filter isMcp (log w1) = filter isMcp (log w)" by simp
  with Suc.IH [of w1] c show ?case by simp
qed

lemma poll_no_mcp:
  assumes "\<And>v. filter isMcp (log (snd (cond v))) = filter isMcp (log v)"
  shows "filter isMcp (log (snd (PollUntilContextTimeout i t cond w))) = filter isMcp (log w)"
proof -
  obtain ok err w1 where c: "cond w = ((ok, err), w1)" by (metis prod.collapse)
  from assms [of w] c have "filter isMcp (log w1) = filter isMcp (log w)" by simp
  with loop_no_mcp [of cond "(t - 1) div i" w1, OF assms] c show ?thesis
    by (simp add: PollUntilContextTimeout_def)
qed

lemma enabled_cond_true:
  "ensureIPsecEnabled_cond E v = ((True, None), w') \<Longrightarrow>
   log w' = log v @ [EvDaemonSetsGet (fst (dsGet E (clock v))) (snd (dsGet E (clock v))),
                     EvClusterOperators (Inr True)]"
  using getIPsecDaemonSet_log [of E v] isIPsecDaemonSetRunning_log [of E v]
  by (auto simp: ensureIPsecEnabled_cond_def areClusterOperatorsReady_def split: prod.splits if_splits)

text \<open>
  C9. A "not found" answer to the lookup of the daemon set is the success signal of the
  workload-absence probe: \<open>getIPsecDaemonSet\<close> turns it into a nil daemon set with a nil
  error, and the condition of \<open>ensureIPsecDisabled\<close> goes on to the operator-health check
  exactly when the daemon set is nil and the error is nil; the cycle then reports what the
  health check reports.
\<close>

theorem not_found_is_absence:
  "(dsGet E (clock w) = (ds, Some e) \<and> IsNotFound e \<longrightarrow> fst (getIPsecDaemonSet E w) = (None, None))
   \<and> ((\<exists>r. log (snd (ensureIPsecDisabled_cond E w)) = log (snd (getIPsecDaemonSet E w)) @ [EvClusterOperators r])
        \<longleftrightarrow> fst (getIPsecDaemonSet E w) = (None, None))
   \<and> (fst (getIPsecDaemonSet E w) = (None, None) \<longrightarrow>
        fst (fst (ensureIPsecDisabled_cond E w)) = (coReady E (Suc (clock w)) = Inr True))"
  apply (intro conjI)
    apply (simp add: getIPsecDaemonSet_def DaemonSetsGet_def)
   apply (auto simp: ensureIPsecDisabled_cond_def getIPsecDaemonSet_def DaemonSetsGet_def areClusterOperatorsReady_def
      split: prod.splits option.splits if_splits)[1]
  apply (auto simp: ensureIPsecDisabled_cond_def getIPsecDaemonSet_def DaemonSetsGet_def areClusterOperatorsReady_def nonTransient_def
      split: prod.splits option.splits if_splits sum.splits)
  done

theorem not_found_is_absence_witness:
  "dsGet quietEnv (clock world0) = (None, Some (Error NotFound ''daemonsets.apps ovn-ipsec-host not found''))
   \<and> IsNotFound (Error NotFound ''daemonsets.apps ovn-ipsec-host not found'')
   \<and> fst (getIPsecDaemonSet quietEnv world0) = (None, None)
   \<and> fst (fst (ensureIPsecDisabled_cond quietEnv world0)) = True"
proof -
  have a: "dsGet quietEnv (clock world0) = (None, Some (Error NotFound ''daemonsets.apps ovn-ipsec-host not found''))
     \<and> IsNotFound (Error NotFound ''daemonsets.apps ovn-ipsec-host not found'')"
    by (simp add: quietEnv_def IsNotFound_def)
  note T = not_found_is_absence [of quietEnv world0 None "Error NotFound ''daemonsets.apps ovn-ipsec-host not found''"]
  from T [THEN conjunct1, THEN mp, OF a]
  have b: "fst (getIPsecDaemonSet quietEnv world0) = (None, None)" .
  from T [THEN conjunct2, THEN conjunct2, rule_format, OF b]
  have "fst (fst (ensureIPsecDisabled_cond quietEnv world0)) = True"
    by (simp add: quietEnv_def)
  with a b show ?thesis by simp
qed

lemma loop_never_within:
  "\<forall>k<n. fst (cond (((\<lambda>v. snd (cond v)) ^^ k) w)) = (False, None) \<Longrightarrow>
     loopConditionUntilContext n cond w = (Some ctxDeadlineExceeded, ((\<lambda>v. snd (cond v)) ^^ n) w)"
proof (induction n arbitrary: w)
  case 0
  show ?case by simp
next
  case (Suc n)
  from Suc.prems have "fst (cond w) = (False, None)" by fastforce
  then obtain w1 where c: "cond w = ((False, None), w1)"
    by (metis prod.collapse)
  then have s: "snd (cond w) = w1" by simp
  have sw: "\<And>k. ((\<lambda>v. snd (cond v)) ^^ Suc k) w = ((\<lambda>v. snd (cond v)) ^^ k) w1"
    unfolding funpow_Suc_right o_apply s ..
  have "\<forall>k<n. fst (cond (((\<lambda>v. snd (cond v)) ^^ k) w1)) = (False, None)"
  proof (intro allI impI)
    fix k assume "k < n"
    then have "Suc k < Suc n" by simp
    with Suc.prems have "fst (cond (((\<lambda>v. snd (cond v)) ^^ Suc k) w)) = (False, None)" by blast
    then show "fst (cond (((\<lambda>v. snd (cond v)) ^^ k) w1)) = (False, None)"
      unfolding sw .
  qed
  from Suc.IH [OF this] c sw [of n] show ?case by simp
qed

lemma poll_never_within:
  assumes "\<forall>k<Suc ((t - 1) div i). fst (cond (((\<lambda>v. snd (cond v)) ^^ k) w)) = (False, None)"
  shows "PollUntilContextTimeout i t cond w =
     (Some ctxDeadlineExceeded, ((\<lambda>v. snd (cond v)) ^^ Suc ((t - 1) div i)) w)"
proof -
  from assms have "fst (cond w) = (False, None)" by fastforce
  then obtain w1 where c: "cond w = ((False, None), w1)"
    by (metis prod.collapse)
  then have s: "snd (cond w) = w1" by simp
  have sw: "\<And>k. ((\<lambda>v. snd (cond v)) ^^ Suc k) w = ((\<lambda>v. snd (cond v)) ^^ k) w1"
    unfolding funpow_Suc_right o_apply s ..
  have "\<forall>k<(t - 1) div i. fst (cond (((\<lambda>v. snd (cond v)) ^^ k) w1)) = (False, None)"
  proof (intro allI impI)
    fix k assume "k < (t - 1) div i"
    then have "Suc k < Suc ((t - 1) div i)" by simp
    with assms have "fst (cond (((\<lambda>v. snd (cond v)) ^^ Suc k) w)) = (False, None)" by blast
    then show "fst (cond (((\<lambda>v. snd (cond v)) ^^ k) w1)) = (False, None)"
      unfolding sw .
  qed
  from loop_never_within [OF this] c sw [of "(t - 1) div i"] show ?thesis
    by (simp add: PollUntilContextTimeout_def)
qed

lemma rollout_polls: "Suc ((ipsecRolloutWaitDuration - 1) div ipsecRolloutWaitInterval) = 20"
  by (simp add: ipsecRolloutWaitDuration_def ipsecRolloutWaitInterval_def)

text \<open>
  C3 (as amended). For each of the three convergence waits, when none of the twenty runs of
  the condition that fit into the bound reports converged or a non-transient error, the wait
  returns the error \<open>context.DeadlineExceeded\<close> after those twenty runs: the functions
  return an error only, and the timeout is that error. For \<open>ensureIPsecEnabled\<close> this holds
  for its machine-config wait and, once that has converged, for its own poll.
\<close>

theorem rollout_wait_timeout:
  "((\<forall>k<20. fst (ensureIPsecMachineConfigRolloutComplete_cond E
        (((\<lambda>v. snd (ensureIPsecMachineConfigRolloutComplete_cond E v)) ^^ k) w)) = (False, None)) \<longrightarrow>
      ensureIPsecMachineConfigRolloutComplete E w =
        (Some ctxDeadlineExceeded, ((\<lambda>v. snd (ensureIPsecMachineConfigRolloutComplete_cond E v)) ^^ 20) w)
      \<and> fst (ensureIPsecEnabled E w) = Some ctxDeadlineExceeded)
   \<and> ((\<forall>k<20. fst (ensureIPsecDisabled_cond E
        (((\<lambda>v. snd (ensureIPsecDisabled_cond E v)) ^^ k) w)) = (False, None)) \<longrightarrow>
      ensureIPsecDisabled E w =
        (Some ctxDeadlineExceeded, ((\<lambda>v. snd (ensureIPsecDisabled_cond E v)) ^^ 20) w))
   \<and> (ensureIPsecMachineConfigRolloutComplete E w = (None, w1) \<and>
       (\<forall>k<20. fst (ensureIPsecEnabled_cond E
        (((\<lambda>v. snd (ensureIPsecEnabled_cond E v)) ^^ k) w1)) = (False, None)) \<longrightarrow>
      ensureIPsecEnabled E w =
        (Some ctxDeadlineExceeded, ((\<lambda>v. snd (ensureIPsecEnabled_cond E v)) ^^ 20) w1))"
proof (intro conjI impI)
  assume a: "\<forall>k<20. fst (ensureIPsecMachineConfigRolloutComplete_cond E
        (((\<lambda>v. snd (ensureIPsecMachineConfigRolloutComplete_cond E v)) ^^ k) w)) = (False, None)"
  from poll_never_within [of ipsecRolloutWaitDuration ipsecRolloutWaitInterval
      "ensureIPsecMachineConfigRolloutComplete_cond E" w] a
  show m: "ensureIPsecMachineConfigRolloutComplete E w =
        (Some ctxDeadlineExceeded, ((\<lambda>v. snd (ensureIPsecMachineConfigRolloutComplete_cond E v)) ^^ 20) w)"
    unfolding rollout_polls ensureIPsecMachineConfigRolloutComplete_def by simp
  then show "fst (ensureIPsecEnabled E w) = Some ctxDeadlineExceeded"
    by (simp add: ensureIPsecEnabled_def)
next
  assume a: "\<forall>k<20. fst (ensureIPsecDisabled_cond E
        (((\<lambda>v. snd (ensureIPsecDisabled_cond E v)) ^^ k) w)) = (False, None)"
  from poll_never_within [of ipsecRolloutWaitDuration ipsecRolloutWaitInterval
      "ensureIPsecDisabled_cond E" w] a
  show "ensureIPsecDisabled E w =
        (Some ctxDeadlineExceeded, ((\<lambda>v. snd (ensureIPsecDisabled_cond E v)) ^^ 20) w)"
    unfolding rollout_polls ensureIPsecDisabled_def by simp
next
  assume a: "ensureIPsecMachineConfigRolloutComplete E w = (None, w1) \<and>
       (\<forall>k<20. fst (ensureIPsecEnabled_cond E
        (((\<lambda>v. snd (ensureIPsecEnabled_cond E v)) ^^ k) w1)) = (False, None))"
  from poll_never_within [of ipsecRolloutWaitDuration ipsecRolloutWaitInterval
      "ensureIPsecEnabled_cond E" w1] a
  have "PollUntilContextTimeout ipsecRolloutWaitInterval ipsecRolloutWaitDuration
            (ensureIPsecEnabled_cond E) w1 =
        (Some ctxDeadlineExceeded, ((\<lambda>v. snd (ensureIPsecEnabled_cond E v)) ^^ 20) w1)"
    unfolding rollout_polls by simp
  with a show "ensureIPsecEnabled E w =
        (Some ctxDeadlineExceeded, ((\<lambda>v. snd (ensureIPsecEnabled_cond E v)) ^^ 20) w1)"
    by (simp add: ensureIPsecEnabled_def)
qed

theorem rollout_wait_timeout_witness:
  "fst (ensureIPsecMachineConfigRolloutComplete stuckEnv world0) = Some ctxDeadlineExceeded \<and>
   fst (ensureIPsecDisabled stuckEnv world0) = Some ctxDeadlineExceeded \<and>
   fst (ensureIPsecMachineConfigRolloutComplete lagEnv world0) = None \<and>
   fst (ensureIPsecEnabled lagEnv world0) = Some ctxDeadlineExceeded"
proof -
  have a: "\<forall>k<20. fst (ensureIPsecMachineConfigRolloutComplete_cond stuckEnv
        (((\<lambda>v. snd (ensureIPsecMachineConfigRolloutComplete_cond stuckEnv v)) ^^ k) world0)) = (False, None)"
    by (simp add: ensureIPsecMachineConfigRolloutComplete_cond_def areMachineConfigPoolsReadyWithIPsec_def
        stuckEnv_def quietEnv_def nonTransient_def)
  have b: "\<forall>k<20. fst (ensureIPsecDisabled_cond stuckEnv
        (((\<lambda>v. snd (ensureIPsecDisabled_cond stuckEnv v)) ^^ k) world0)) = (False, None)"
    by (simp add: ensureIPsecDisabled_cond_def getIPsecDaemonSet_def DaemonSetsGet_def
        stuckEnv_def quietEnv_def nonTransient_def)
  have m: "fst (ensureIPsecMachineConfigRolloutComplete lagEnv world0) = None"
    by (simp add: ensureIPsecMachineConfigRolloutComplete_def PollUntilContextTimeout_def
        ensureIPsecMachineConfigRolloutComplete_cond_def areMachineConfigPoolsReadyWithIPsec_def
        areClusterOperatorsReady_def lagEnv_def quietEnv_def nonTransient_def)
  then have m': "ensureIPsecMachineConfigRolloutComplete lagEnv world0 =
      (None, snd (ensureIPsecMachineConfigRolloutComplete lagEnv world0))"
    by (simp add: prod_eq_iff)
  have c: "\<forall>k<20. fst (ensureIPsecEnabled_cond lagEnv
        (((\<lambda>v. snd (ensureIPsecEnabled_cond lagEnv v)) ^^ k)
           (snd (ensureIPsecMachineConfigRolloutComplete lagEnv world0)))) = (False, None)"
    by (simp add: ensureIPsecEnabled_cond_def isIPsecDaemonSetRunning_def
        getIPsecDaemonSet_def DaemonSetsGet_def lagEnv_def quietEnv_def nonTransient_def)
  from rollout_wait_timeout [of stuckEnv world0, THEN conjunct1, THEN mp, OF a]
    rollout_wait_timeout [of stuckEnv world0, THEN conjunct2, THEN conjunct1, THEN mp, OF b]
    rollout_wait_timeout [of lagEnv world0, THEN conjunct2, THEN conjunct2, THEN mp, OF conjI, OF m' c]
    m
  show ?thesis by simp
qed

theorem rollout_wait_timeout_counterexample:
  "fst (ensureIPsecDisabled_cond stuckEnv world0) = (False, None) \<and>
   fst (ensureIPsecDisabled stuckEnv world0) = Some ctxDeadlineExceeded \<and>
   fst (ensureIPsecDisabled stuckEnv world0) \<noteq> None"
proof -
  have b: "\<forall>v. fst (ensureIPsecDisabled_cond stuckEnv v) = (False, None)"
    by (simp add: ensureIPsecDisabled_cond_def getIPsecDaemonSet_def DaemonSetsGet_def
        stuckEnv_def quietEnv_def nonTransient_def)
  from poll_never_within [of ipsecRolloutWaitDuration ipsecRolloutWaitInterval
      "ensureIPsecDisabled_cond stuckEnv" world0] b
  show ?thesis by (simp add: ensureIPsecDisabled_def)
qed

text \<open>
  The three conditions apply one policy to the errors their probes hand them: an error
  leaves a condition only if it is not a connection reset, and with a false verdict; and a
  non-transient error of the first probe is returned as it is.
\<close>

lemma conditions_report_non_transient_errors_only:
  "fst (ensureIPsecDisabled_cond E w) = (ok, Some e) \<Longrightarrow> \<not> ok \<and> \<not> isConnResetErr e"
  "fst (ensureIPsecMachineConfigRolloutComplete_cond E w) = (ok, Some e) \<Longrightarrow> \<not> ok \<and> \<not> isConnResetErr e"
  "fst (ensureIPsecEnabled_cond E w) = (ok, Some e) \<Longrightarrow> \<not> ok \<and> \<not> isConnResetErr e"
  by (auto simp: ensureIPsecDisabled_cond_def ensureIPsecMachineConfigRolloutComplete_cond_def
      ensureIPsecEnabled_cond_def nonTransient_def split: prod.splits if_splits option.splits)

lemma conditions_abort_on_probe_error:
  "nonTransient (snd (fst (getIPsecDaemonSet E w))) \<Longrightarrow>
     fst (ensureIPsecDisabled_cond E w) = (False, snd (fst (getIPsecDaemonSet E w)))"
  "nonTransient (snd (fst (areMachineConfigPoolsReadyWithIPsec E w))) \<Longrightarrow>
     fst (ensureIPsecMachineConfigRolloutComplete_cond E w) =
       (False, snd (fst (areMachineConfigPoolsReadyWithIPsec E w)))"
  "nonTransient (snd (fst (isIPsecDaemonSetRunning E w))) \<Longrightarrow>
     fst (ensureIPsecEnabled_cond E w) = (False, snd (fst (isIPsecDaemonSetRunning E w)))"
  by (auto simp: ensureIPsecDisabled_cond_def ensureIPsecMachineConfigRolloutComplete_cond_def
      ensureIPsecEnabled_cond_def split: prod.splits)

text \<open>
  C7. In \<open>ensureIPsecEnabled\<close> an error of the daemon set lookup that arrives with a
  non-nil object never reaches the poll condition: \<open>isIPsecDaemonSetRunning\<close> drops it and
  compares the counters of the object, so that the cycle counts as ready. The same lookup
  error aborts \<open>ensureIPsecDisabled\<close>.
\<close>

theorem lookup_error_is_lost:
  "\<not> isConnResetErr (Error Unknown ''daemonsets.apps is forbidden'') \<and>
   fst (getIPsecDaemonSet forbiddenEnv world0) =
     (Some \<lparr>DesiredNumberScheduled = 0, NumberReady = 0\<rparr>, Some (Error Unknown ''daemonsets.apps is forbidden'')) \<and>
   fst (isIPsecDaemonSetRunning forbiddenEnv world0) = (True, None) \<and>
   fst (ensureIPsecEnabled_cond forbiddenEnv world0) = (True, None) \<and>
   fst (ensureIPsecEnabled forbiddenEnv world0) = None \<and>
   fst (ensureIPsecDisabled forbiddenEnv world0) = Some (Error Unknown ''daemonsets.apps is forbidden'') \<and>
   isConnResetErr (Error ConnReset ''read: connection reset by peer'') \<and>
   fst (isIPsecDaemonSetRunning resetEnv world0) = (True, None) \<and>
   fst (ensureIPsecEnabled_cond resetEnv world0) = (True, None) \<and>
   fst (ensureIPsecEnabled resetEnv world0) = None"
  by code_simp

text \<open>
  C1 (as amended). A convergence wait that succeeds for target mode External or Full has
  seen the machine-config probe report the rollout complete and, right after it, the
  operators healthy; for Full the daemon set probe and a second health check follow. For
  target mode Disabled the wait runs no machine-config probe at all: it succeeds once the
  daemon set is absent and the operators are healthy.
\<close>

theorem waitForIPsecConfigToComplete_probes:
  assumes "waitForIPsecConfigToComplete E mode w = (Done (), w')"
  shows "(mode = IPsecModeExternal \<longrightarrow>
            (\<exists>pre. log w' = log w @ pre @ [EvMachineConfigPools (Inr True), EvClusterOperators (Inr True)]))
       \<and> (mode = IPsecModeFull \<longrightarrow>
            (\<exists>pre mid ds err. log w' = log w @ pre @ [EvMachineConfigPools (Inr True), EvClusterOperators (Inr True)]
                 @ mid @ [EvDaemonSetsGet ds err, EvClusterOperators (Inr True)]))
       \<and> (mode = IPsecModeDisabled \<longrightarrow>
            filter isMcp (log w') = filter isMcp (log w) \<and>
            (\<exists>pre ds err. log w' = log w @ pre @ [EvDaemonSetsGet ds err, EvClusterOperators (Inr True)]
                \<and> (ds = None \<and> err = None \<or> (\<exists>e. err = Some e \<and> IsNotFound e))))"
proof (rule conjI [OF _ conjI]; rule impI)
  assume m: "mode = IPsecModeExternal"
  with assms have "ensureIPsecMachineConfigRolloutComplete E w = (None, w')"
    by (auto simp: waitForIPsecConfigToComplete_def IPsecModeExternal_def IPsecModeDisabled_def
        expectNoError_def split: prod.splits option.splits)
  then have "PollUntilContextTimeout ipsecRolloutWaitInterval ipsecRolloutWaitDuration
       (ensureIPsecMachineConfigRolloutComplete_cond E) w = (None, w')"
    by (simp add: ensureIPsecMachineConfigRolloutComplete_def)
  from poll_success [OF mcp_cond_ext this] obtain v pre where
    "log v = log w @ pre" "ensureIPsecMachineConfigRolloutComplete_cond E v = ((True, None), w')"
    by blast
  with mcp_cond_true [of E v w']
  show "\<exists>pre. log w' = log w @ pre @ [EvMachineConfigPools (Inr True), EvClusterOperators (Inr True)]"
    by auto
next
  assume m: "mode = IPsecModeFull"
  with assms have "ensureIPsecEnabled E w = (None, w')"
    by (auto simp: waitForIPsecConfigToComplete_def IPsecModeExternal_def IPsecModeDisabled_def
        IPsecModeFull_def expectNoError_def split: prod.splits option.splits)
  then obtain w1 where
    1: "PollUntilContextTimeout ipsecRolloutWaitInterval ipsecRolloutWaitDuration
       (ensureIPsecMachineConfigRolloutComplete_cond E) w = (None, w1)"
    and 2: "PollUntilContextTimeout ipsecRolloutWaitInterval ipsecRolloutWaitDuration
       (ensureIPsecEnabled_cond E) w1 = (None, w')"
    by (auto simp: ensureIPsecEnabled_def ensureIPsecMachineConfigRolloutComplete_def
        split: prod.splits option.splits)
  from poll_success [OF mcp_cond_ext 1] obtain v pre where
    v: "log v = log w @ pre" "ensureIPsecMachineConfigRolloutComplete_cond E v = ((True, None), w1)"
    by blast
  from poll_success [OF enabled_cond_ext 2] obtain v' mid where
    v': "log v' = log w1 @ mid" "ensureIPsecEnabled_cond E v' = ((True, None), w')"
    by blast
  from v v' mcp_cond_true [of E v w1] enabled_cond_true [of E v' w']
  show "\<exists>pre mid ds err. log w' = log w @ pre @ [EvMachineConfigPools (Inr True), EvClusterOperators (Inr True)]
                 @ mid @ [EvDaemonSetsGet ds err, EvClusterOperators (Inr True)]"
    by auto
next
  assume m: "mode = IPsecModeDisabled"
  with assms have d: "ensureIPsecDisabled E w = (None, w')"
    by (auto simp: waitForIPsecConfigToComplete_def expectNoError_def split: prod.splits option.splits)
  then have p: "PollUntilContextTimeout ipsecRolloutWaitInterval ipsecRolloutWaitDuration
       (ensureIPsecDisabled_cond E) w = (None, w')"
    by (simp add: ensureIPsecDisabled_def)
  from poll_no_mcp [of "ensureIPsecDisabled_cond E" ipsecRolloutWaitInterval ipsecRolloutWaitDuration w,
      OF disabled_cond_no_mcp] p
  have a: "filter isMcp (log w') = filter isMcp (log w)" by simp
  from poll_success [OF disabled_cond_ext p] obtain v pre where
    v: "log v = log w @ pre" "ensureIPsecDisabled_cond E v = ((True, None), w')"
    by blast
  from disabled_cond_true [OF v(2)] getIPsecDaemonSet_absent [of E v] v(1)
  have b: "\<exists>pre ds err. log w' = log w @ pre @ [EvDaemonSetsGet ds err, EvClusterOperators (Inr True)]
                \<and> (ds = None \<and> err = None \<or> (\<exists>e. err = Some e \<and> IsNotFound e))"
    by (cases "dsGet E (clock v)") auto
  from a b show "filter isMcp (log w') = filter isMcp (log w) \<and>
            (\<exists>pre ds err. log w' = log w @ pre @ [EvDaemonSetsGet ds err, EvClusterOperators (Inr True)]
                \<and> (ds = None \<and> err = None \<or> (\<exists>e. err = Some e \<and> IsNotFound e)))"
    by simp
qed

theorem waitForIPsecConfigToComplete_probes_witness:
  "fst (waitForIPsecConfigToComplete quietEnv IPsecModeExternal world0) = Done () \<and>
   (\<exists>pre. log (snd (waitForIPsecConfigToComplete quietEnv IPsecModeExternal world0)) =
      log world0 @ pre @ [EvMachineConfigPools (Inr True), EvClusterOperators (Inr True)]) \<and>
   fst (waitForIPsecConfigToComplete readyEnv IPsecModeFull world0) = Done () \<and>
   (\<exists>pre mid ds err. log (snd (waitForIPsecConfigToComplete readyEnv IPsecModeFull world0)) =
      log world0 @ pre @ [EvMachineConfigPools (Inr True), EvClusterOperators (Inr True)]
        @ mid @ [EvDaemonSetsGet ds err, EvClusterOperators (Inr True)]) \<and>
   fst (waitForIPsecConfigToComplete quietEnv IPsecModeDisabled world0) = Done () \<and>
   filter isMcp (log (snd (waitForIPsecConfigToComplete quietEnv IPsecModeDisabled world0))) =
     filter isMcp (log world0)"
proof -
  have e: "fst (waitForIPsecConfigToComplete quietEnv IPsecModeExternal world0) = Done ()"
    by code_simp
  have f: "fst (waitForIPsecConfigToComplete readyEnv IPsecModeFull world0) = Done ()"
    by code_simp
  have d: "fst (waitForIPsecConfigToComplete quietEnv IPsecModeDisabled world0) = Done ()"
    by code_simp
  have pair: "\<And>p. fst p = Done () \<Longrightarrow> p = (Done (), snd p)" by (simp add: prod_eq_iff)
  note E = waitForIPsecConfigToComplete_probes [OF pair [OF e], THEN conjunct1, THEN mp, OF refl]
  note F = waitForIPsecConfigToComplete_probes [OF pair [OF f], THEN conjunct2, THEN conjunct1, THEN mp, OF refl]
  note D = waitForIPsecConfigToComplete_probes [OF pair [OF d], THEN conjunct2, THEN conjunct2, THEN mp, OF refl]
  from e f d E F D show ?thesis by blast
qed

theorem waitForIPsecConfigToComplete_counterexample:
  "waitForIPsecConfigToComplete poolsLagEnv IPsecModeDisabled world0 =
     (Done (), world0\<lparr>clock := 2,
        log := [EvDaemonSetsGet None (Some (Error NotFound ''daemonsets.apps ovn-ipsec-host not found'')),
                EvClusterOperators (Inr True)]\<rparr>)
   \<and> mcpReady poolsLagEnv 0 = Inr False \<and> mcpReady poolsLagEnv 1 = Inr False"
  by (simp add: waitForIPsecConfigToComplete_def ensureIPsecDisabled_def PollUntilContextTimeout_def
      ensureIPsecDisabled_cond_def getIPsecDaemonSet_def DaemonSetsGet_def areClusterOperatorsReady_def
      poolsLagEnv_def quietEnv_def world0_def IsNotFound_def nonTransient_def expectNoError_def tick_def)

section \<open>Properties of the TrafficOracle\<close>

lemma trialResult_nil:
  "trialResult s d p b = None \<longleftrightarrow> s = None \<and> d = None \<and> p = None"
  by (auto simp: trialResult_def errgroupWait2_def Let_def split: option.splits)

lemma trialResult_src_dst:
  "trialResult (Some e1) None p b \<noteq> trialResult None (Some e2) q b'"
  by (simp add: trialResult_def errgroupWait2_def Let_def srcCaptureError_def dstCaptureError_def
      Errorf_def fmt_v_def)

lemma trialResult_ping_src:
  "trialResult None None (Some e3) b \<noteq> trialResult (Some e1) d q b'"
  by (cases d) (simp_all add: trialResult_def errgroupWait2_def Let_def srcCaptureError_def dstCaptureError_def
      Errorf_def fmt_v_def)

lemma trialResult_ping_dst:
  "trialResult None None (Some e3) b \<noteq> trialResult s (Some e2) q b'"
  by (cases s) (simp_all add: trialResult_def errgroupWait2_def Let_def srcCaptureError_def dstCaptureError_def
      Errorf_def fmt_v_def)

text \<open>
  C4. With the pods of both nodes set up, \<open>pingAndCheckNodeTraffic\<close> returns at an instant
  that is not before the end of any of its three tasks (the capture on the source node, the
  capture on the destination node, the ping); it returns nil if and only if all three
  succeeded; and the error it returns for a failed capture on the source node differs from
  the one for a failed capture on the destination node, and the error for a failed ping
  alone differs from the error of any run in which a capture failed.
\<close>

theorem pingAndCheckNodeTraffic_barrier_and_errors:
  assumes "podsUp src" "podsUp dst"
  shows "\<exists>res w'. pingAndCheckNodeTraffic E src dst ipsecTraffic w = (Done res, w')
     \<and> finished w (srcCapture E src dst ipsecTraffic w) \<le> clock w'
     \<and> finished w (dstCapture E src dst ipsecTraffic w) \<le> clock w'
     \<and> finished w (pingTestFromPod E src dst w) \<le> clock w'
     \<and> (res = None \<longleftrightarrow> execErr (srcCapture E src dst ipsecTraffic w) = None
                        \<and> execErr (dstCapture E src dst ipsecTraffic w) = None
                        \<and> execErr (pingTestFromPod E src dst w) = None)
     \<and> res = trialResult (execErr (srcCapture E src dst ipsecTraffic w))
                (execErr (dstCapture E src dst ipsecTraffic w))
                (execErr (pingTestFromPod E src dst w)) (errOnceSrcFirst E (clock w))
     \<and> (\<forall>e1 e2 p q b b'. trialResult (Some e1) None p b \<noteq> trialResult None (Some e2) q b')
     \<and> (\<forall>e1 e3 d q b b'. trialResult None None (Some e3) b \<noteq> trialResult (Some e1) d q b')
     \<and> (\<forall>e2 e3 s q b b'. trialResult None None (Some e3) b \<noteq> trialResult s (Some e2) q b')"
  using assms trialResult_src_dst trialResult_ping_src trialResult_ping_dst
  by (simp add: pingAndCheckNodeTraffic_def Let_def trialResult_nil max.coboundedI1 max.coboundedI2)

theorem pingAndCheckNodeTraffic_barrier_and_errors_witness:
  "podsUp srcNode \<and> podsUp dstNode \<and>
   fst (pingAndCheckNodeTraffic fullClusterEnv srcNode dstNode True world0) = Done None \<and>
   3 \<le> clock (snd (pingAndCheckNodeTraffic fullClusterEnv srcNode dstNode True world0)) \<and>
   fst (pingAndCheckNodeTraffic fullClusterEnv srcNode dstNode False world0) \<noteq> Done None \<and>
   11 \<le> clock (snd (pingAndCheckNodeTraffic fullClusterEnv srcNode dstNode False world0))"
proof -
  have up: "podsUp srcNode" "podsUp dstNode"
    by (simp_all add: podsUp_def srcNode_def dstNode_def)
  have t: "execErr (srcCapture fullClusterEnv srcNode dstNode True world0) = None"
     "execErr (dstCapture fullClusterEnv srcNode dstNode True world0) = None"
     "execErr (pingTestFromPod fullClusterEnv srcNode dstNode world0) = None"
     "finished world0 (srcCapture fullClusterEnv srcNode dstNode True world0) = 3"
    by code_simp+
  have f: "execErr (srcCapture fullClusterEnv srcNode dstNode False world0) \<noteq> None"
     "finished world0 (srcCapture fullClusterEnv srcNode dstNode False world0) = 11"
    by code_simp+
  from pingAndCheckNodeTraffic_barrier_and_errors [OF up, of fullClusterEnv True world0] t
  have 1: "fst (pingAndCheckNodeTraffic fullClusterEnv srcNode dstNode True world0) = Done None \<and>
   3 \<le> clock (snd (pingAndCheckNodeTraffic fullClusterEnv srcNode dstNode True world0))"
    by auto
  from pingAndCheckNodeTraffic_barrier_and_errors [OF up, of fullClusterEnv False world0] f
  have 2: "fst (pingAndCheckNodeTraffic fullClusterEnv srcNode dstNode False world0) \<noteq> Done None \<and>
   11 \<le> clock (snd (pingAndCheckNodeTraffic fullClusterEnv srcNode dstNode False world0))"
    by auto
  from up 1 2 show ?thesis by simp
qed

section \<open>Properties of the traffic checks\<close>

lemma trials_append [simp]: "trials (a @ b) = trials a @ trials b"
  by (induction a) (auto simp: trials_def split: option.splits)

lemma trials_simps [simp]:
  "trials [] = []"
  "trials (EvTrial f r # evs) = (f, r = None) # trials evs"
  "trials (EvImage e # evs) = trials evs"
  "trials (EvLaunchPod n e # evs) = trials evs"
  "trials (EvCreateExecPod n b # evs) = trials evs"
  "trials (EvDeletePod e # evs) = trials evs"
  by (simp_all add: trials_def)

lemma setupNode_log:
  "setupNode E node w = (r, node', w') \<Longrightarrow> \<exists>l. log w' = log w @ l \<and> trials l = []"
  by (auto simp: setupNode_def Let_def split: sum.splits option.splits)

lemma setupTestPods_log:
  assumes "setupTestPods E w = (r, w')"
  shows "\<exists>l. log w' = log w @ l \<and> trials l = []"
proof (cases "config w")
  case None
  with assms show ?thesis by (simp add: setupTestPods_def)
next
  case (Some cfg)
  show ?thesis
  proof (cases "imageFromRelease E (clock w)")
    case (Some e)
    with assms \<open>config w = Some cfg\<close> show ?thesis by (auto simp: setupTestPods_def)
  next
    case None
    let ?w1 = "tick (EvImage None) w"
    obtain r1 s w2 where a: "setupNode E (srcNodeConfig cfg) ?w1 = (r1, s, w2)"
      by (metis prod_cases3)
    obtain r2 d w3 where b: "setupNode E (dstNodeConfig cfg) w2 = (r2, d, w3)"
      by (metis prod_cases3)
    from setupNode_log [OF a] obtain l1 where l1: "log w2 = log ?w1 @ l1" "trials l1 = []" by blast
    from setupNode_log [OF b] obtain l2 where l2: "log w3 = log w2 @ l2" "trials l2 = []" by blast
    show ?thesis
    proof (cases "r1 = Crash")
      case True
      with assms \<open>config w = Some cfg\<close> None a have "log w' = log w2"
        by (auto simp: setupTestPods_def Let_def)
      with l1 have "log w' = log w @ ([EvImage None] @ l1) \<and> trials ([EvImage None] @ l1) = []"
        by simp
      then show ?thesis by blast
    next
      case False
      with assms \<open>config w = Some cfg\<close> None a b
      have "log w' = log w3"
        by (auto simp: setupTestPods_def Let_def split: run.splits)
      with l1 l2 have "log w' = log w @ ([EvImage None] @ l1 @ l2) \<and> trials ([EvImage None] @ l1 @ l2) = []"
        by simp
      then show ?thesis by blast
    qed
  qed
qed

lemma deleteAndClear_log:
  "deleteAndClear E c w = (r, w') \<Longrightarrow> \<exists>l. log w' = log w @ l \<and> trials l = []"
  by (auto simp: deleteAndClear_def andThen_def expecting_def DeletePodWithWait_def expectNoError_def
      split: option.splits run.splits)

lemma andThen_log:
  assumes f: "\<exists>l. log (snd r) = log w @ l \<and> trials l = []"
    and k: "\<And>v r' w'. k v = (r', w') \<Longrightarrow> \<exists>l. log w' = log v @ l \<and> trials l = []"
    and a: "andThen r k = (r', w')"
  shows "\<exists>l. log w' = log w @ l \<and> trials l = []"
proof (cases r)
  case (Pair x v)
  from f Pair obtain l where l: "log v = log w @ l" "trials l = []" by auto
  show ?thesis
  proof (cases x)
    case (Done u)
    with a Pair have "k v = (r', w')" by (simp add: andThen_def)
    from k [OF this] obtain l' where "log w' = log v @ l'" "trials l' = []" by blast
    with l have "log w' = log w @ (l @ l') \<and> trials (l @ l') = []" by simp
    then show ?thesis by blast
  next
    case Abort
    with a Pair have "w' = v" by (simp add: andThen_def)
    with l show ?thesis by blast
  next
    case Crash
    with a Pair have "w' = v" by (simp add: andThen_def)
    with l show ?thesis by blast
  qed
qed

lemma deleteAndClear_snd_log:
  "\<exists>l. log (snd (deleteAndClear E c w)) = log w @ l \<and> trials l = []"
  by (auto simp: deleteAndClear_def andThen_def expecting_def DeletePodWithWait_def expectNoError_def
      split: option.splits run.splits)

lemma cleanupTestPods_log:
  assumes "cleanupTestPods E w = (r, w')"
  shows "\<exists>l. log w' = log w @ l \<and> trials l = []"
proof -
  note d = deleteAndClear_snd_log
  note k = deleteAndClear_log
  show ?thesis
    by (rule andThen_log [OF d andThen_log [OF d andThen_log [OF d k]]
          assms [unfolded cleanupTestPods_def]])
qed

lemma deferredCleanup_log:
  assumes "deferredCleanup E err out w = (r, w')"
  shows "\<exists>l. log w' = log w @ l \<and> trials l = []"
proof (cases "err \<noteq> None \<and> \<not> DeleteNamespaceOnFailure E")
  case True
  with assms show ?thesis by (simp add: deferredCleanup_def)
next
  case False
  obtain r1 w1 where c: "cleanupTestPods E w = (r1, w1)" by (cases "cleanupTestPods E w")
  with assms False have "w' = w1" by (auto simp: deferredCleanup_def split: run.splits)
  with cleanupTestPods_log [OF c] show ?thesis by simp
qed

lemma deferredCleanup_Done:
  "deferredCleanup E err out w = (Done (), w') \<Longrightarrow> out = Done ()"
  by (auto simp: deferredCleanup_def split: if_splits prod.splits run.splits)

lemma pingAndCheckNodeTraffic_log:
  "pingAndCheckNodeTraffic E src dst f w = (Done res, w') \<Longrightarrow> log w' = log w @ [EvTrial f res]"
  by (auto simp: pingAndCheckNodeTraffic_def Let_def split: if_splits)

lemma checkForOnlyTraffic_trials:
  assumes "checkForOnlyTraffic E f w = (Done (), w')"
  shows "trials (drop (length (log w)) (log w')) = [(f, True), (\<not> f, False)]"
proof -
  obtain r1 w1 where s: "setupTestPods E w = (r1, w1)" by (cases "setupTestPods E w")
  with assms have r1: "r1 = Done None"
    by (auto simp: checkForOnlyTraffic_def split: run.splits option.splits)
  from s r1 assms obtain cfg where cfg: "config w1 = Some cfg"
    by (auto simp: checkForOnlyTraffic_def split: option.splits)
  obtain r2 w2 where p1: "pingAndCheckNodeTraffic E (srcNodeConfig cfg) (dstNodeConfig cfg) f w1 = (r2, w2)"
    by (metis prod.collapse)
  have r2: "r2 = Done None"
  proof (cases r2)
    case Crash
    with assms s r1 cfg p1 show ?thesis by (simp add: checkForOnlyTraffic_def)
  next
    case Abort
    with assms s r1 cfg p1 have "deferredCleanup E None Abort w2 = (Done (), w')"
      by (simp add: checkForOnlyTraffic_def)
    from deferredCleanup_Done [OF this] show ?thesis by simp
  next
    case (Done e)
    show ?thesis
    proof (cases e)
      case None
      with Done show ?thesis by simp
    next
      case (Some a)
      with Done assms s r1 cfg p1 have "deferredCleanup E (Some a) Abort w2 = (Done (), w')"
        by (simp add: checkForOnlyTraffic_def)
      from deferredCleanup_Done [OF this] show ?thesis by simp
    qed
  qed
  obtain r3 w3 where p2: "pingAndCheckNodeTraffic E (srcNodeConfig cfg) (dstNodeConfig cfg) (\<not> f) w2 = (r3, w3)"
    by (metis prod.collapse)
  have "\<exists>e. r3 = Done (Some e) \<and> deferredCleanup E (Some e) (Done ()) w3 = (Done (), w')"
  proof (cases r3)
    case Crash
    with assms s r1 cfg p1 r2 p2 show ?thesis by (simp add: checkForOnlyTraffic_def)
  next
    case Abort
    with assms s r1 cfg p1 r2 p2 have "deferredCleanup E None Abort w3 = (Done (), w')"
      by (simp add: checkForOnlyTraffic_def)
    from deferredCleanup_Done [OF this] show ?thesis by simp
  next
    case (Done e)
    show ?thesis
    proof (cases e)
      case None
      with Done assms s r1 cfg p1 r2 p2 have "deferredCleanup E None Abort w3 = (Done (), w')"
        by (simp add: checkForOnlyTraffic_def)
      from deferredCleanup_Done [OF this] show ?thesis by simp
    next
      case (Some a)
      with Done assms s r1 cfg p1 r2 p2 show ?thesis
        by (simp add: checkForOnlyTraffic_def)
    qed
  qed
  then obtain e where r3: "r3 = Done (Some e)" and d: "deferredCleanup E (Some e) (Done ()) w3 = (Done (), w')"
    by blast
  from setupTestPods_log [OF s] obtain l1 where l1: "log w1 = log w @ l1" "trials l1 = []" by blast
  from pingAndCheckNodeTraffic_log p1 r2 have l2: "log w2 = log w1 @ [EvTrial f None]" by simp
  from pingAndCheckNodeTraffic_log p2 r3 have l3: "log w3 = log w2 @ [EvTrial (\<not> f) (Some e)]" by simp
  from deferredCleanup_log [OF d] obtain l4 where l4: "log w' = log w3 @ l4" "trials l4 = []" by blast
  from l1 l2 l3 l4 show ?thesis by simp
qed

text \<open>
  C2 (as amended). A verification that passes has run exactly two trials, for every mode:
  first the trial for the signature the mode expects (encrypted for Full, plain overlay for
  Disabled and External), which returned nil, then the negative control for the other
  signature, which returned an error.
\<close>

theorem checkTraffic_trials:
  assumes "checkTraffic E mode w = (Done (), w')"
  shows "trials (drop (length (log w)) (log w')) =
           [(mode = IPsecModeFull, True), (mode \<noteq> IPsecModeFull, False)]"
  using assms checkForOnlyTraffic_trials [of E True w w'] checkForOnlyTraffic_trials [of E False w w']
  by (auto simp: checkTraffic_def checkForESPOnlyTraffic_def checkForGeneveOnlyTraffic_def split: if_splits)

lemmas run_defs = checkTraffic_def checkForESPOnlyTraffic_def checkForGeneveOnlyTraffic_def
  checkForOnlyTraffic_def setupTestPods_def setupNode_def pingAndCheckNodeTraffic_def
  deferredCleanup_def cleanupTestPods_def deleteAndClear_def andThen_def expecting_def
  DeletePodWithWait_def expectNoError_def srcCapture_def dstCapture_def pingTestFromPod_def
  podsUp_def trialResult_def errgroupWait2_def finished_def tcpdumpArgs_def pingArgs_def
  tcpdumpESPFilter_def tcpdumpGeneveFilter_def Let_def testWorld_def holding_def world0_def
  emptyNode_def somePod_def okExec_def quietEnv_def fullClusterEnv_def plainClusterEnv_def
  IPsecModeFull_def IPsecModeExternal_def IPsecModeDisabled_def

theorem checkTraffic_trials_counterexample:
  "fst (checkTraffic fullClusterEnv IPsecModeFull (testWorld IPsecModeFull)) = Done () \<and>
   trials (log (snd (checkTraffic fullClusterEnv IPsecModeFull (testWorld IPsecModeFull)))) =
     [(True, True), (False, False)]"
  by (simp add: run_defs)

theorem checkTraffic_trials_witness:
  "fst (checkTraffic fullClusterEnv IPsecModeFull (testWorld IPsecModeFull)) = Done () \<and>
   trials (drop (length (log (testWorld IPsecModeFull)))
     (log (snd (checkTraffic fullClusterEnv IPsecModeFull (testWorld IPsecModeFull))))) =
       [(True, True), (False, False)] \<and>
   fst (checkTraffic plainClusterEnv IPsecModeExternal (testWorld IPsecModeExternal)) = Done () \<and>
   trials (drop (length (log (testWorld IPsecModeExternal)))
     (log (snd (checkTraffic plainClusterEnv IPsecModeExternal (testWorld IPsecModeExternal))))) =
       [(False, True), (True, False)] \<and>
   fst (checkTraffic plainClusterEnv IPsecModeDisabled (testWorld IPsecModeDisabled)) = Done () \<and>
   trials (drop (length (log (testWorld IPsecModeDisabled)))
     (log (snd (checkTraffic plainClusterEnv IPsecModeDisabled (testWorld IPsecModeDisabled))))) =
       [(False, True), (True, False)]"
proof -
  have f: "fst (checkTraffic fullClusterEnv IPsecModeFull (testWorld IPsecModeFull)) = Done ()"
    by (simp add: run_defs)
  have e: "fst (checkTraffic plainClusterEnv IPsecModeExternal (testWorld IPsecModeExternal)) = Done ()"
    by (simp add: run_defs)
  have d: "fst (checkTraffic plainClusterEnv IPsecModeDisabled (testWorld IPsecModeDisabled)) = Done ()"
    by (simp add: run_defs)
  have pair: "\<And>p. fst p = Done () \<Longrightarrow> p = (Done (), snd p)" by (simp add: prod_eq_iff)
  have m: "IPsecModeExternal \<noteq> IPsecModeFull" "IPsecModeDisabled \<noteq> IPsecModeFull"
    by (simp_all add: IPsecModeExternal_def IPsecModeFull_def IPsecModeDisabled_def)
  from checkTraffic_trials [OF pair [OF f]] checkTraffic_trials [OF pair [OF e]]
    checkTraffic_trials [OF pair [OF d]] f e d m
  show ?thesis by simp
qed

section \<open>Properties of the scenario and of its teardown\<close>

lemma loop_preserves:
  assumes "\<And>v. f (snd (cond v)) = f v"
  shows "f (snd (loopConditionUntilContext n cond w)) = f w"
proof (induction n arbitrary: w)
  case 0
  show ?case by simp
next
  case (Suc n)
  obtain ok err w1 where c: "cond w = ((ok, err), w1)" by (metis prod.collapse)
  from assms [of w] c have "f w1 = f w" by simp
  with Suc.IH [of w1] c show ?case by simp
qed

lemma poll_preserves:
  assumes "\<And>v. f (snd (cond v)) = f v"
  shows "f (snd (PollUntilContextTimeout i t cond w)) = f w"
proof -
  obtain ok err w1 where c: "cond w = ((ok, err), w1)" by (metis prod.collapse)
  from assms [of w] c have "f w1 = f w" by simp
  with loop_preserves [of f cond "(t - 1) div i" w1, OF assms] c show ?thesis
    by (simp add: PollUntilContextTimeout_def)
qed

lemma loop_ext:
  assumes ext: "\<And>v. \<exists>l. log (snd (cond v)) = log v @ l"
  shows "\<exists>l. log (snd (loopConditionUntilContext n cond w)) = log w @ l"
proof (induction n arbitrary: w)
  case 0
  show ?case by simp
next
  case (Suc n)
  obtain ok err w1 where c: "cond w = ((ok, err), w1)" by (metis prod.collapse)
  from ext [of w] c obtain l where l: "log w1 = log w @ l" by auto
  from Suc.IH [of w1] obtain l' where "log (snd (loopConditionUntilContext n cond w1)) = log w1 @ l'"
    by blast
  with l c show ?case by auto
qed

lemma poll_ext:
  assumes ext: "\<And>v. \<exists>l. log (snd (cond v)) = log v @ l"
  shows "\<exists>l. log (snd (PollUntilContextTimeout i t cond w)) = log w @ l"
proof -
  obtain ok err w1 where c: "cond w = ((ok, err), w1)" by (metis prod.collapse)
  from ext [of w] c obtain l where l: "log w1 = log w @ l" by auto
  from loop_ext [OF ext, of "(t - 1) div i" w1] obtain l' where
    "log (snd (loopConditionUntilContext ((t - 1) div i) cond w1)) = log w1 @ l'" by blast
  with l c show ?thesis by (auto simp: PollUntilContextTimeout_def)
qed

lemma kept_tick [simp]: "kept (tick ev w) = kept w"
  by (simp add: kept_def)

lemma probes_keep:
  "kept (snd (getIPsecDaemonSet E w)) = kept w"
  "kept (snd (isIPsecDaemonSetRunning E w)) = kept w"
  "kept (snd (areMachineConfigPoolsReadyWithIPsec E w)) = kept w"
  "kept (snd (areClusterOperatorsReady E w)) = kept w"
  by (auto simp: getIPsecDaemonSet_def DaemonSetsGet_def isIPsecDaemonSetRunning_def
      areMachineConfigPoolsReadyWithIPsec_def areClusterOperatorsReady_def
      split: prod.splits option.splits)

lemma conds_keep:
  "kept (snd (ensureIPsecDisabled_cond E w)) = kept w"
  "kept (snd (ensureIPsecMachineConfigRolloutComplete_cond E w)) = kept w"
  "kept (snd (ensureIPsecEnabled_cond E w)) = kept w"
  using probes_keep [of E w]
    probes_keep(4) [of E "snd (getIPsecDaemonSet E w)"]
    probes_keep(4) [of E "snd (isIPsecDaemonSetRunning E w)"]
    probes_keep(4) [of E "snd (areMachineConfigPoolsReadyWithIPsec E w)"]
  by (auto simp: ensureIPsecDisabled_cond_def ensureIPsecMachineConfigRolloutComplete_cond_def
      ensureIPsecEnabled_cond_def split: prod.splits if_splits)

lemma waitForIPsecConfigToComplete_keeps:
  "kept (snd (waitForIPsecConfigToComplete E mode w)) = kept w"
proof -
  note p = poll_preserves [of kept, OF conds_keep(1)] poll_preserves [of kept, OF conds_keep(2)]
    poll_preserves [of kept, OF conds_keep(3)]
  have d: "kept (snd (ensureIPsecDisabled E w)) = kept w"
    by (simp add: ensureIPsecDisabled_def p)
  have m: "\<And>v. kept (snd (ensureIPsecMachineConfigRolloutComplete E v)) = kept v"
    by (simp add: ensureIPsecMachineConfigRolloutComplete_def p)
  have e: "kept (snd (ensureIPsecEnabled E w)) = kept w"
    using m [of w] by (auto simp: ensureIPsecEnabled_def p split: prod.splits option.splits)
  from d m [of w] e show ?thesis
    by (auto simp: waitForIPsecConfigToComplete_def split: prod.splits)
qed

lemma fn_stored:
  "configureIPsecMode_fn E M w = (None, w') \<Longrightarrow>
     (\<exists>c. ipsecConfig (network w') = Some c \<and> Mode c = M)"
  by (auto simp: configureIPsecMode_fn_def NetworksGet_def NetworksUpdate_def Let_def
      split: option.splits if_splits)

lemma fn_config:
  "config (snd (configureIPsecMode_fn E M w)) = config w"
  by (auto simp: configureIPsecMode_fn_def NetworksGet_def NetworksUpdate_def Let_def
      split: option.splits if_splits)

lemma fn_ext:
  "\<exists>l. log (snd (configureIPsecMode_fn E M w)) = log w @ l"
  by (auto simp: configureIPsecMode_fn_def NetworksGet_def NetworksUpdate_def Let_def
      split: option.splits if_splits)

lemma retry_stored:
  "RetryOnConflict n (configureIPsecMode_fn E M) l w = (None, w') \<Longrightarrow> l \<noteq> None \<or> 0 < n \<Longrightarrow>
     (\<exists>c. ipsecConfig (network w') = Some c \<and> Mode c = M)"
proof (induction n arbitrary: l w)
  case 0
  then show ?case by simp
next
  case (Suc n)
  obtain r1 w1 where a: "configureIPsecMode_fn E M w = (r1, w1)" by (cases "configureIPsecMode_fn E M w")
  show ?case
  proof (cases r1)
    case None
    with Suc.prems a have "w1 = w'" by simp
    with a None fn_stored show ?thesis by blast
  next
    case (Some e)
    with Suc.prems a have "IsConflict e" "RetryOnConflict n (configureIPsecMode_fn E M) (Some e) w1 = (None, w')"
      by (auto split: if_splits)
    from Suc.IH [OF this(2)] show ?thesis by simp
  qed
qed

lemma retry_config_ext:
  "config (snd (RetryOnConflict n (configureIPsecMode_fn E M) l w)) = config w \<and>
   (\<exists>l'. log (snd (RetryOnConflict n (configureIPsecMode_fn E M) l w)) = log w @ l')"
proof (induction n arbitrary: l w)
  case 0
  show ?case by simp
next
  case (Suc n)
  obtain r1 w1 where a: "configureIPsecMode_fn E M w = (r1, w1)" by (cases "configureIPsecMode_fn E M w")
  from fn_config [of E M w] fn_ext [of E M w] a obtain l1 where
    b: "config w1 = config w" "log w1 = log w @ l1" by auto
  show ?case
  proof (cases r1)
    case None
    with a b show ?thesis by simp
  next
    case (Some e)
    with a b Suc.IH [of "Some e" w1] show ?thesis by auto
  qed
qed

lemma configureIPsecMode_stored:
  "configureIPsecMode E M w = (None, w') \<Longrightarrow> \<exists>c. ipsecConfig (network w') = Some c \<and> Mode c = M"
  using retry_stored [of DefaultRetry_Steps E M None w w']
  by (simp add: configureIPsecMode_def DefaultRetry_Steps_def)

lemma configureIPsecMode_config_ext:
  "config (snd (configureIPsecMode E M w)) = config w"
  "\<exists>l. log (snd (configureIPsecMode E M w)) = log w @ l"
  using retry_config_ext [of DefaultRetry_Steps E M None w]
  by (simp_all add: configureIPsecMode_def)

lemma andThen_Done:
  "andThen r k = (Done x, w') \<Longrightarrow> \<exists>v. r = (Done (), v) \<and> k v = (Done x, w')"
  by (auto simp: andThen_def split: prod.splits run.splits)

lemma expecting_Done:
  "expecting r = (Done (), v) \<Longrightarrow> r = (None, v)"
  by (auto simp: expecting_def expectNoError_def split: prod.splits option.splits)

lemma Eventually_poll_Done:
  "Eventually n (AfterEach_poll E) w = (Done (), w') \<Longrightarrow>
     kept w' = kept w \<and>
     (\<exists>l. log w' = log w @ l @ [EvWorkerPools nsCertMachineConfigName False (Inr True)])"
proof (induction n arbitrary: w)
  case 0
  then show ?case by simp
next
  case (Suc n)
  obtain r w1 where a: "AfterEach_poll E w = (r, w1)" by (cases "AfterEach_poll E w")
  then have b: "kept w1 = kept w"
    "log w1 = log w @ [EvWorkerPools nsCertMachineConfigName False
        (workerPoolsReady E (clock w) nsCertMachineConfigName False)]"
    by (auto simp: AfterEach_poll_def areWorkerMachineConfigPoolsReady_def kept_def
        split: prod.splits option.splits)
  show ?case
  proof (cases r)
    case Crash
    with Suc.prems a show ?thesis by simp
  next
    case Abort
    with Suc.prems a show ?thesis by simp
  next
    case (Done ready)
    show ?thesis
    proof (cases ready)
      case True
      with Done a have "workerPoolsReady E (clock w) nsCertMachineConfigName False = Inr True"
        by (cases "workerPoolsReady E (clock w) nsCertMachineConfigName False")
          (auto simp: AfterEach_poll_def areWorkerMachineConfigPoolsReady_def split: prod.splits option.splits)
      moreover from True Done a Suc.prems have "w' = w1" by simp
      ultimately show ?thesis using b by simp
    next
      case False
      with Done a Suc.prems have "Eventually n (AfterEach_poll E) w1 = (Done (), w')" by simp
      from Suc.IH [OF this] b show ?thesis by auto
    qed
  qed
qed

lemma waitForIPsecConfigToComplete_ext:
  "\<exists>l. log (snd (waitForIPsecConfigToComplete E mode w)) = log w @ l"
proof -
  have d: "\<exists>l. log (snd (ensureIPsecDisabled E w)) = log w @ l"
    unfolding ensureIPsecDisabled_def by (rule poll_ext [OF disabled_cond_ext])
  have m: "\<And>v. \<exists>l. log (snd (ensureIPsecMachineConfigRolloutComplete E v)) = log v @ l"
    unfolding ensureIPsecMachineConfigRolloutComplete_def by (rule poll_ext [OF mcp_cond_ext])
  have e: "\<exists>l. log (snd (ensureIPsecEnabled E w)) = log w @ l"
  proof -
    obtain r w1 where a: "ensureIPsecMachineConfigRolloutComplete E w = (r, w1)"
      by (cases "ensureIPsecMachineConfigRolloutComplete E w")
    with m [of w] obtain l where l: "log w1 = log w @ l" by auto
    from poll_ext [of "ensureIPsecEnabled_cond E", OF enabled_cond_ext]
    obtain l' where "log (snd (PollUntilContextTimeout ipsecRolloutWaitInterval ipsecRolloutWaitDuration
            (ensureIPsecEnabled_cond E) w1)) = log w1 @ l'" by blast
    with a l show ?thesis by (cases r) (auto simp: ensureIPsecEnabled_def)
  qed
  from d m [of w] e show ?thesis
    by (auto simp: waitForIPsecConfigToComplete_def split: prod.splits)
qed

lemma BeforeAll_captures:
  "BeforeAll E w = (Done (), w') \<Longrightarrow>
     map_option ipsecMode (config w') = Some (fst (fst (getIPsecMode E w)))"
  by (auto simp: BeforeAll_def split: prod.splits option.splits)

lemma AfterEach_Done:
  assumes cfg: "config v = Some cfg"
    and pass: "AfterEach E v = (Done (), w')"
  shows "(\<exists>c. ipsecConfig (network w') = Some c \<and> Mode c = ipsecMode cfg)
       \<and> (\<exists>l0 l1. log w' = log v @ l0 @
             [EvOc [''delete'', ''-f'', rightNodeIPsecConfigYaml] None,
              EvOc [''delete'', ''-f'', leftNodeIPsecConfigYaml] None,
              EvUndeployNmstateHandler None,
              EvDeleteNSCertMachineConfig None] @ l1 @
             [EvWorkerPools nsCertMachineConfigName False (Inr True)])"
proof -
  let ?w = v
  let ?m = "ipsecMode cfg"
  from pass cfg have chain: "andThen (expecting (configureIPsecMode E ?m ?w)) (\<lambda>w.
          andThen (waitForIPsecConfigToComplete E ?m w) (\<lambda>w.
          andThen (expecting (ocExecute E [''delete'', ''-f'', rightNodeIPsecConfigYaml] w)) (\<lambda>w.
          andThen (expecting (ocExecute E [''delete'', ''-f'', leftNodeIPsecConfigYaml] w)) (\<lambda>w.
          andThen (expecting (undeployNmstateHandler E w)) (\<lambda>w.
          andThen (expecting (deleteNSCertMachineConfig E w)) (\<lambda>w.
          Eventually (Suc ((ipsecRolloutWaitDuration - 1) div ipsecRolloutWaitInterval))
            (AfterEach_poll E) w)))))) = (Done (), w')"
    by (simp only: AfterEach_def option.case)
  from andThen_Done [OF chain] obtain w1 where
    1: "expecting (configureIPsecMode E ?m ?w) = (Done (), w1)" and
    c1: "andThen (waitForIPsecConfigToComplete E ?m w1) (\<lambda>w.
          andThen (expecting (ocExecute E [''delete'', ''-f'', rightNodeIPsecConfigYaml] w)) (\<lambda>w.
          andThen (expecting (ocExecute E [''delete'', ''-f'', leftNodeIPsecConfigYaml] w)) (\<lambda>w.
          andThen (expecting (undeployNmstateHandler E w)) (\<lambda>w.
          andThen (expecting (deleteNSCertMachineConfig E w)) (\<lambda>w.
          Eventually (Suc ((ipsecRolloutWaitDuration - 1) div ipsecRolloutWaitInterval))
            (AfterEach_poll E) w))))) = (Done (), w')"
    by blast
  from andThen_Done [OF c1] obtain w2 where
    2: "waitForIPsecConfigToComplete E ?m w1 = (Done (), w2)" and
    c2: "andThen (expecting (ocExecute E [''delete'', ''-f'', rightNodeIPsecConfigYaml] w2)) (\<lambda>w.
          andThen (expecting (ocExecute E [''delete'', ''-f'', leftNodeIPsecConfigYaml] w)) (\<lambda>w.
          andThen (expecting (undeployNmstateHandler E w)) (\<lambda>w.
          andThen (expecting (deleteNSCertMachineConfig E w)) (\<lambda>w.
          Eventually (Suc ((ipsecRolloutWaitDuration - 1) div ipsecRolloutWaitInterval))
            (AfterEach_poll E) w)))) = (Done (), w')"
    by blast
  from andThen_Done [OF c2] obtain w3 where
    3: "expecting (ocExecute E [''delete'', ''-f'', rightNodeIPsecConfigYaml] w2) = (Done (), w3)" and
    c3: "andThen (expecting (ocExecute E [''delete'', ''-f'', leftNodeIPsecConfigYaml] w3)) (\<lambda>w.
          andThen (expecting (undeployNmstateHandler E w)) (\<lambda>w.
          andThen (expecting (deleteNSCertMachineConfig E w)) (\<lambda>w.
          Eventually (Suc ((ipsecRolloutWaitDuration - 1) div ipsecRolloutWaitInterval))
            (AfterEach_poll E) w))) = (Done (), w')"
    by blast
  from andThen_Done [OF c3] obtain w4 where
    4: "expecting (ocExecute E [''delete'', ''-f'', leftNodeIPsecConfigYaml] w3) = (Done (), w4)" and
    c4: "andThen (expecting (undeployNmstateHandler E w4)) (\<lambda>w.
          andThen (expecting (deleteNSCertMachineConfig E w)) (\<lambda>w.
          Eventually (Suc ((ipsecRolloutWaitDuration - 1) div ipsecRolloutWaitInterval))
            (AfterEach_poll E) w)) = (Done (), w')"
    by blast
  from andThen_Done [OF c4] obtain w5 where
    5: "expecting (undeployNmstateHandler E w4) = (Done (), w5)" and
    c5: "andThen (expecting (deleteNSCertMachineConfig E w5)) (\<lambda>w.
          Eventually (Suc ((ipsecRolloutWaitDuration - 1) div ipsecRolloutWaitInterval))
            (AfterEach_poll E) w) = (Done (), w')"
    by blast
  from andThen_Done [OF c5] obtain w6 where
    6: "expecting (deleteNSCertMachineConfig E w5) = (Done (), w6)" and
    7: "Eventually (Suc ((ipsecRolloutWaitDuration - 1) div ipsecRolloutWaitInterval))
            (AfterEach_poll E) w6 = (Done (), w')"
    by blast
  from expecting_Done [OF 1] have s1: "configureIPsecMode E ?m ?w = (None, w1)" .
  from configureIPsecMode_stored [OF s1] obtain c where
    c: "ipsecConfig (network w1) = Some c" "Mode c = ?m" by blast
  from configureIPsecMode_config_ext(2) [of E ?m ?w] s1 obtain la where
    la: "log w1 = log ?w @ la" by auto
  from waitForIPsecConfigToComplete_keeps [of E ?m w1] 2 have k2: "kept w2 = kept w1" by simp
  from waitForIPsecConfigToComplete_ext [of E ?m w1] 2 obtain lb where
    lb: "log w2 = log w1 @ lb" by auto
  from expecting_Done [OF 3] have k3: "kept w3 = kept w2"
    "log w3 = log w2 @ [EvOc [''delete'', ''-f'', rightNodeIPsecConfigYaml] None]"
    by (auto simp: ocExecute_def kept_def)
  from expecting_Done [OF 4] have k4: "kept w4 = kept w3"
    "log w4 = log w3 @ [EvOc [''delete'', ''-f'', leftNodeIPsecConfigYaml] None]"
    by (auto simp: ocExecute_def kept_def)
  from expecting_Done [OF 5] have k5: "kept w5 = kept w4"
    "log w5 = log w4 @ [EvUndeployNmstateHandler None]"
    by (auto simp: undeployNmstateHandler_def kept_def)
  from expecting_Done [OF 6] have k6: "kept w6 = kept w5"
    "log w6 = log w5 @ [EvDeleteNSCertMachineConfig None]"
    by (auto simp: deleteNSCertMachineConfig_def kept_def)
  from Eventually_poll_Done [OF 7] obtain l1 where
    k7: "kept w' = kept w6" "log w' = log w6 @ l1 @ [EvWorkerPools nsCertMachineConfigName False (Inr True)]"
    by blast
  from k2 k3 k4 k5 k6 k7 have "network w' = network w1" by (simp add: kept_def)
  with c have A: "\<exists>c. ipsecConfig (network w') = Some c \<and> Mode c = ipsecMode cfg" by simp
  from la lb k3 k4 k5 k6 k7 have "log w' = log ?w @ (la @ lb) @
             [EvOc [''delete'', ''-f'', rightNodeIPsecConfigYaml] None,
              EvOc [''delete'', ''-f'', leftNodeIPsecConfigYaml] None,
              EvUndeployNmstateHandler None,
              EvDeleteNSCertMachineConfig None] @ l1 @
             [EvWorkerPools nsCertMachineConfigName False (Inr True)]"
    by simp
  then have B: "\<exists>l0 l1. log w' = log ?w @ l0 @
             [EvOc [''delete'', ''-f'', rightNodeIPsecConfigYaml] None,
              EvOc [''delete'', ''-f'', leftNodeIPsecConfigYaml] None,
              EvUndeployNmstateHandler None,
              EvDeleteNSCertMachineConfig None] @ l1 @
             [EvWorkerPools nsCertMachineConfigName False (Inr True)]"
    by blast
  from A B show ?thesis by simp
qed

lemma capturedMode_tick [simp]: "capturedMode (tick ev w) = capturedMode w"
  by (simp add: capturedMode_def)

lemma andThen_preserves:
  assumes "f (snd r) = f w" "\<And>v. f (snd (k v)) = f v"
  shows "f (snd (andThen r k)) = f w"
  using assms by (auto simp: andThen_def split: prod.splits run.splits)

lemma setupTestPods_captured:
  "capturedMode (snd (setupTestPods E w)) = capturedMode w"
proof (cases "config w")
  case None
  then show ?thesis by (simp add: setupTestPods_def)
next
  case (Some cfg)
  show ?thesis
  proof (cases "imageFromRelease E (clock w)")
    case (Some e)
    with \<open>config w = Some cfg\<close> show ?thesis by (simp add: setupTestPods_def)
  next
    case None
    obtain r1 s w2 where a: "setupNode E (srcNodeConfig cfg) (tick (EvImage None) w) = (r1, s, w2)"
      by (metis prod_cases3)
    obtain r2 d w3 where b: "setupNode E (dstNodeConfig cfg) w2 = (r2, d, w3)"
      by (metis prod_cases3)
    from \<open>config w = Some cfg\<close> None a b show ?thesis
      by (auto simp: setupTestPods_def Let_def capturedMode_def split: run.splits)
  qed
qed

lemma pingAndCheckNodeTraffic_captured:
  "capturedMode (snd (pingAndCheckNodeTraffic E s d f w)) = capturedMode w"
  by (simp add: pingAndCheckNodeTraffic_def Let_def capturedMode_def)

lemma deleteAndClear_captured:
  assumes "\<And>c. ipsecMode (clear c) = ipsecMode c"
  shows "capturedMode (snd (deleteAndClear E clear w)) = capturedMode w"
  using assms
  by (cases "config w")
    (auto simp: deleteAndClear_def andThen_def expecting_def DeletePodWithWait_def expectNoError_def
      capturedMode_def split: option.splits)

lemma cleanupTestPods_captured:
  "capturedMode (snd (cleanupTestPods E w)) = capturedMode w"
  unfolding cleanupTestPods_def
  by (intro andThen_preserves deleteAndClear_captured) simp_all

lemma deferredCleanup_captured:
  "capturedMode (snd (deferredCleanup E err out w)) = capturedMode w"
  using cleanupTestPods_captured [of E w]
  by (auto simp: deferredCleanup_def split: prod.splits run.splits)

lemma checkForOnlyTraffic_captured:
  "capturedMode (snd (checkForOnlyTraffic E f w)) = capturedMode w"
proof -
  obtain r1 w1 where s: "setupTestPods E w = (r1, w1)" by (cases "setupTestPods E w")
  with setupTestPods_captured [of E w] have 1: "capturedMode w1 = capturedMode w" by simp
  show ?thesis
  proof (cases "r1 = Done None \<and> config w1 \<noteq> None")
    case False
    with s 1 show ?thesis
      by (auto simp: checkForOnlyTraffic_def split: run.splits option.splits)
  next
    case True
    then obtain cfg where cfg: "config w1 = Some cfg" by auto
    obtain r2 w2 where p1: "pingAndCheckNodeTraffic E (srcNodeConfig cfg) (dstNodeConfig cfg) f w1 = (r2, w2)"
      by (metis prod.collapse)
    with pingAndCheckNodeTraffic_captured [of E "srcNodeConfig cfg" "dstNodeConfig cfg" f w1]
    have 2: "capturedMode w2 = capturedMode w1" by simp
    obtain r3 w3 where p2: "pingAndCheckNodeTraffic E (srcNodeConfig cfg) (dstNodeConfig cfg) (\<not> f) w2 = (r3, w3)"
      by (metis prod.collapse)
    with pingAndCheckNodeTraffic_captured [of E "srcNodeConfig cfg" "dstNodeConfig cfg" "\<not> f" w2]
    have 3: "capturedMode w3 = capturedMode w2" by simp
    from True s cfg p1 p2 1 2 3 show ?thesis
      by (auto simp: checkForOnlyTraffic_def deferredCleanup_captured split: run.splits option.splits)
  qed
qed

lemma checkTraffic_captured:
  "capturedMode (snd (checkTraffic E mode w)) = capturedMode w"
  by (simp add: checkTraffic_def checkForESPOnlyTraffic_def checkForGeneveOnlyTraffic_def
      checkForOnlyTraffic_captured)

lemma expecting_snd [simp]: "snd (expecting r) = snd r"
  by (simp add: expecting_def split: prod.splits)

lemma modeTransitionSpec_captured:
  "capturedMode (snd (modeTransitionSpec E mode w)) = capturedMode w"
proof (cases "config w")
  case None
  then show ?thesis by (simp add: modeTransitionSpec_def)
next
  case (Some cfg)
  have c: "\<And>v. capturedMode (snd (configureIPsecMode E mode v)) = capturedMode v"
    by (simp add: capturedMode_def configureIPsecMode_config_ext)
  have k: "\<And>v. capturedMode (snd (waitForIPsecConfigToComplete E mode v)) = capturedMode v"
    using waitForIPsecConfigToComplete_keeps by (simp add: capturedMode_def kept_def)
  from Some show ?thesis
    unfolding modeTransitionSpec_def
    by (simp only: option.case) (intro andThen_preserves; simp add: checkTraffic_captured c k)
qed

lemma RetryOnConflict_numeral:
  "RetryOnConflict (numeral k) fn lastErr w =
     (case fn w of
        (None, w') \<Rightarrow> (None, w')
      | (Some e, w') \<Rightarrow>
          if IsConflict e then RetryOnConflict (pred_numeral k) fn (Some e) w' else (Some e, w'))"
  by (simp add: numeral_eq_Suc)

lemma Eventually_numeral:
  "Eventually (numeral k) f w =
     (case f w of
        (Crash, w') \<Rightarrow> (Crash, w')
      | (Abort, w') \<Rightarrow> (Abort, w')
      | (Done True, w') \<Rightarrow> (Done (), w')
      | (Done False, w') \<Rightarrow> Eventually (pred_numeral k) f w')"
  by (simp add: numeral_eq_Suc)

lemmas teardown_defs = run_defs modeTransitionSpec_def AfterEach_def runSpec_def
  configureIPsecMode_def RetryOnConflict_numeral Eventually_numeral DefaultRetry_Steps_def configureIPsecMode_fn_def
  NetworksGet_def NetworksUpdate_def rivalWrite_def callError_def
  waitForIPsecConfigToComplete_def ensureIPsecEnabled_def ensureIPsecDisabled_def
  ensureIPsecMachineConfigRolloutComplete_def PollUntilContextTimeout_def
  ensureIPsecMachineConfigRolloutComplete_cond_def ensureIPsecDisabled_cond_def
  areMachineConfigPoolsReadyWithIPsec_def areClusterOperatorsReady_def getIPsecDaemonSet_def
  DaemonSetsGet_def nonTransient_def isConnResetErr_def IsNotFound_def IsConflict_def
  ocExecute_def undeployNmstateHandler_def deleteNSCertMachineConfig_def
  areWorkerMachineConfigPoolsReady_def AfterEach_poll_def ipsecRolloutWaitDuration_def
  ipsecRolloutWaitInterval_def nsCertMachineConfigName_def rightNodeIPsecConfigYaml_def
  leftNodeIPsecConfigYaml_def capturedMode_def

lemma Eventually_poll_keeps:
  "kept (snd (Eventually n (AfterEach_poll E) w)) = kept w"
proof (induction n arbitrary: w)
  case 0
  show ?case by simp
next
  case (Suc n)
  obtain r w1 where a: "AfterEach_poll E w = (r, w1)" by (cases "AfterEach_poll E w")
  then have b: "kept w1 = kept w"
    by (auto simp: AfterEach_poll_def areWorkerMachineConfigPoolsReady_def kept_def
        split: prod.splits option.splits)
  show ?case
  proof (cases r)
    case Crash
    with a b show ?thesis by simp
  next
    case Abort
    with a b show ?thesis by simp
  next
    case (Done ready)
    with a b Suc.IH [of w1] show ?thesis by (cases ready) simp_all
  qed
qed

lemma removal_keeps:
  "kept (snd (ocExecute E args w)) = kept w"
  "kept (snd (undeployNmstateHandler E w)) = kept w"
  "kept (snd (deleteNSCertMachineConfig E w)) = kept w"
  by (simp_all add: ocExecute_def undeployNmstateHandler_def deleteNSCertMachineConfig_def)

lemma AfterEach_network:
  assumes "config w = Some cfg"
  shows "network (snd (AfterEach E w)) = network (snd (configureIPsecMode E (ipsecMode cfg) w))"
proof -
  have "kept (snd (AfterEach E w)) = kept (snd (expecting (configureIPsecMode E (ipsecMode cfg) w)))"
    unfolding AfterEach_def assms option.case
    by (intro andThen_preserves [where f = kept] refl Eventually_poll_keeps)
      (simp_all add: waitForIPsecConfigToComplete_keeps removal_keeps)
  then show ?thesis by (simp add: kept_def)
qed

text \<open>
  After a body that killed the process the scenario ends where the body ended. After any
  other body the teardown runs, and once its write of the captured mode has returned nil the
  stored mode is the captured one at the end of the scenario, also when a later step of the
  teardown fails.
\<close>

lemma runSpec_Crash:
  "fst (body w) = Crash \<Longrightarrow> runSpec E body w = body w"
  by (cases "body w") (simp add: runSpec_def)

lemma runSpec_teardown:
  "fst (body w) \<noteq> Crash \<Longrightarrow> snd (runSpec E body w) = snd (AfterEach E (snd (body w)))"
  by (cases "body w") (simp add: runSpec_def split: prod.splits)

lemma runSpec_restores:
  assumes "fst (body w) \<noteq> Crash"
    and "capturedMode (snd (body w)) = Some m"
    and "fst (configureIPsecMode E m (snd (body w))) = None"
  shows "\<exists>c. ipsecConfig (network (snd (runSpec E body w))) = Some c \<and> Mode c = m"
proof -
  from assms(2) obtain cfg where cfg: "config (snd (body w)) = Some cfg" "ipsecMode cfg = m"
    by (auto simp: capturedMode_def)
  from assms(3)
  have "configureIPsecMode E m (snd (body w)) = (None, snd (configureIPsecMode E m (snd (body w))))"
    by (simp add: prod_eq_iff)
  from configureIPsecMode_stored [OF this] AfterEach_network [OF cfg(1), of E] cfg(2)
    runSpec_teardown [where body = body and w = w and E = E, OF assms(1)]
  show ?thesis by simp
qed

text \<open>
  C8. The teardown does not restore the mode after every failure of the body. \<open>BeforeAll\<close>
  captures Disabled on a cluster that holds Disabled. In a scenario that starts with Disabled
  captured, on a cluster without overlay encryption, the transition to External is written and
  converges; in the pod setup of the second traffic check the creation of the exec pod of the
  source node then fails. \<open>CreateExecPodOrFail\<close> fails its assertion on a goroutine of the
  error group, which has no \<open>GinkgoRecover\<close>: the process dies. The run ends with External
  stored and Disabled captured, and after the first traffic check the log holds the write of
  External, its wait, and the pod setup up to the failed creation: the mode is not written back, no policy, handler or certificate config is removed and no pool is polled.
  When it is \<open>launchHostNetworkedPodForTCPDump\<close> that fails at the same point, the error
  comes back through the error group, the assertion fails on the goroutine of the spec, and
  the teardown runs after the failed body: it writes Disabled back, waits for it, deletes the
  right and the left node policy, undeploys the policy-rendering handler, deletes the
  certificate machine config and polls the worker pools, which report the config gone.
\<close>

theorem teardown_skipped_after_crash:
  "BeforeAll execPodFailsEnv (holding IPsecModeDisabled) =
     (Done (), (holding IPsecModeDisabled)\<lparr>clock := 1, log := [EvNetworksGet None],
        config := Some \<lparr>ipsecMode = IPsecModeDisabled, srcNodeConfig = emptyNode,
                        dstNodeConfig = emptyNode\<rparr>\<rparr>)
   \<and> capturedMode (testWorld IPsecModeDisabled) = Some IPsecModeDisabled
   \<and> fst (runSpec execPodFailsEnv (modeTransitionSpec execPodFailsEnv IPsecModeExternal)
            (testWorld IPsecModeDisabled)) = Crash
   \<and> ipsecConfig (network (snd (runSpec execPodFailsEnv
            (modeTransitionSpec execPodFailsEnv IPsecModeExternal) (testWorld IPsecModeDisabled))))
        = Some \<lparr>Mode = IPsecModeExternal\<rparr>
   \<and> capturedMode (snd (runSpec execPodFailsEnv
            (modeTransitionSpec execPodFailsEnv IPsecModeExternal) (testWorld IPsecModeDisabled)))
        = Some IPsecModeDisabled
   \<and> log (snd (runSpec execPodFailsEnv
            (modeTransitionSpec execPodFailsEnv IPsecModeExternal) (testWorld IPsecModeDisabled)))
        = log (snd (checkTraffic execPodFailsEnv IPsecModeDisabled (testWorld IPsecModeDisabled))) @
          [EvNetworksGet None, EvNetworksUpdate (Some \<lparr>Mode = IPsecModeExternal\<rparr>) None,
           EvMachineConfigPools (Inr True), EvClusterOperators (Inr True),
           EvImage None, EvLaunchPod ''1'' None, EvCreateExecPod ''1'' False]
   \<and> fst (runSpec launchFailsEnv (modeTransitionSpec launchFailsEnv IPsecModeExternal)
            (testWorld IPsecModeDisabled)) = Abort
   \<and> ipsecConfig (network (snd (runSpec launchFailsEnv
            (modeTransitionSpec launchFailsEnv IPsecModeExternal) (testWorld IPsecModeDisabled))))
        = Some \<lparr>Mode = IPsecModeDisabled\<rparr>
   \<and> log (snd (runSpec launchFailsEnv
            (modeTransitionSpec launchFailsEnv IPsecModeExternal) (testWorld IPsecModeDisabled)))
        = log (snd (checkTraffic launchFailsEnv IPsecModeDisabled (testWorld IPsecModeDisabled))) @
          [EvNetworksGet None, EvNetworksUpdate (Some \<lparr>Mode = IPsecModeExternal\<rparr>) None,
           EvMachineConfigPools (Inr True), EvClusterOperators (Inr True),
           EvImage None,
           EvLaunchPod ''1'' (Some (Error Unknown ''timed out waiting for the condition'')),
           EvLaunchPod ''2'' (Some (Error Unknown ''timed out waiting for the condition'')),
           EvNetworksGet None, EvNetworksUpdate (Some \<lparr>Mode = IPsecModeDisabled\<rparr>) None,
           EvDaemonSetsGet None (Some (Error NotFound ''daemonsets.apps ovn-ipsec-host not found'')),
           EvClusterOperators (Inr True),
           EvOc [''delete'', ''-f'', rightNodeIPsecConfigYaml] None,
           EvOc [''delete'', ''-f'', leftNodeIPsecConfigYaml] None,
           EvUndeployNmstateHandler None, EvDeleteNSCertMachineConfig None,
           EvWorkerPools nsCertMachineConfigName False (Inr True)]"
proof -
  let ?w = "testWorld IPsecModeDisabled"
  note defs = teardown_defs BeforeAll_def getIPsecMode_def execPodFailsEnv_def launchFailsEnv_def
  have 1: "BeforeAll execPodFailsEnv (holding IPsecModeDisabled) =
     (Done (), (holding IPsecModeDisabled)\<lparr>clock := 1, log := [EvNetworksGet None],
        config := Some \<lparr>ipsecMode = IPsecModeDisabled, srcNodeConfig = emptyNode,
                        dstNodeConfig = emptyNode\<rparr>\<rparr>)"
    by (simp add: defs)
  have 2: "capturedMode ?w = Some IPsecModeDisabled"
    by (simp add: defs)
  have 3: "fst (runSpec execPodFailsEnv (modeTransitionSpec execPodFailsEnv IPsecModeExternal) ?w) = Crash"
    by (simp add: defs)
  have 4: "ipsecConfig (network (snd (runSpec execPodFailsEnv
            (modeTransitionSpec execPodFailsEnv IPsecModeExternal) ?w)))
        = Some \<lparr>Mode = IPsecModeExternal\<rparr>"
    by (simp add: defs)
  have 5: "capturedMode (snd (runSpec execPodFailsEnv
            (modeTransitionSpec execPodFailsEnv IPsecModeExternal) ?w))
        = Some IPsecModeDisabled"
    by (simp add: defs)
  have 6: "log (snd (runSpec execPodFailsEnv
            (modeTransitionSpec execPodFailsEnv IPsecModeExternal) ?w))
        = log (snd (checkTraffic execPodFailsEnv IPsecModeDisabled ?w)) @
          [EvNetworksGet None, EvNetworksUpdate (Some \<lparr>Mode = IPsecModeExternal\<rparr>) None,
           EvMachineConfigPools (Inr True), EvClusterOperators (Inr True),
           EvImage None, EvLaunchPod ''1'' None, EvCreateExecPod ''1'' False]"
    by (simp add: defs)
  have 7: "fst (runSpec launchFailsEnv (modeTransitionSpec launchFailsEnv IPsecModeExternal) ?w) = Abort"
    by (simp add: defs)
  have 8: "ipsecConfig (network (snd (runSpec launchFailsEnv
            (modeTransitionSpec launchFailsEnv IPsecModeExternal) ?w)))
        = Some \<lparr>Mode = IPsecModeDisabled\<rparr>"
    by (simp add: defs)
  have 9: "log (snd (runSpec launchFailsEnv
            (modeTransitionSpec launchFailsEnv IPsecModeExternal) ?w))
        = log (snd (checkTraffic launchFailsEnv IPsecModeDisabled ?w)) @
          [EvNetworksGet None, EvNetworksUpdate (Some \<lparr>Mode = IPsecModeExternal\<rparr>) None,
           EvMachineConfigPools (Inr True), EvClusterOperators (Inr True),
           EvImage None,
           EvLaunchPod ''1'' (Some (Error Unknown ''timed out waiting for the condition'')),
           EvLaunchPod ''2'' (Some (Error Unknown ''timed out waiting for the condition'')),
           EvNetworksGet None, EvNetworksUpdate (Some \<lparr>Mode = IPsecModeDisabled\<rparr>) None,
           EvDaemonSetsGet None (Some (Error NotFound ''daemonsets.apps ovn-ipsec-host not found'')),
           EvClusterOperators (Inr True),
           EvOc [''delete'', ''-f'', rightNodeIPsecConfigYaml] None,
           EvOc [''delete'', ''-f'', leftNodeIPsecConfigYaml] None,
           EvUndeployNmstateHandler None, EvDeleteNSCertMachineConfig None,
           EvWorkerPools nsCertMachineConfigName False (Inr True)]"
    by (simp add: defs)
  from 1 2 3 4 5 6 7 8 9 show ?thesis by (simp only: simp_thms)
qed

end
